theory Spec2Isabelle
  imports
    Complex_Main
    "HOL-Library.Multiset"
    "HOL-Library.Product_Lexorder"
    "HOL-Library.List_Lexorder"
    "HOL-Library.Char_ord"
begin

section \<open>Faults and numeric helpers\<close>

text \<open>
  The script is \<^verbatim>\<open>src/Development/predict_kai.py\<close>. Its numbers are numpy
  floating-point values. The metric is modelled twice. The first model, in this section and
  the next, is the idealized one: exact reals, and a sort that keeps equal keys in input
  order. The second model, in the section after, leaves the rounding of every operation, the
  summation order and the order of equal keys open; the first is one of its instances.
  Every exception the modelled code can raise is a value of \<open>error\<close>. A numpy division by
  zero does not raise: it emits a warning and yields \<^verbatim>\<open>nan\<close> or \<^verbatim>\<open>inf\<close>;
  the model records that outcome as \<open>DivideByZero\<close>, so that it is never mistaken for a score.
\<close>

datatype error = IndexError | KeyError | ValueError | DivideByZero

definition bindE :: "error + 'a \<Rightarrow> ('a \<Rightarrow> error + 'b) \<Rightarrow> error + 'b" where
  "bindE m f = (case m of Inl e \<Rightarrow> Inl e | Inr x \<Rightarrow> f x)"

text \<open>Scalar division \<^verbatim>\<open>a / b\<close>.\<close>

definition np_div :: "real \<Rightarrow> real \<Rightarrow> error + real" where
  "np_div a b = (if b = 0 then Inl DivideByZero else Inr (a / b))"

text \<open>
  Array by scalar, \<^verbatim>\<open>xs / b\<close>: elementwise, so an empty array performs no division at all.
\<close>

definition np_div_arr :: "real list \<Rightarrow> real \<Rightarrow> error + real list" where
  "np_div_arr xs b = (if b = 0 \<and> xs \<noteq> [] then Inl DivideByZero else Inr (map (\<lambda>x. x / b) xs))"

text \<open>\<^verbatim>\<open>xs.cumsum()\<close>: running sums, left to right.\<close>

fun cumsum_from :: "real \<Rightarrow> real list \<Rightarrow> real list" where
  "cumsum_from acc [] = []"
| "cumsum_from acc (x # xs) = (acc + x) # cumsum_from (acc + x) xs"

definition cumsum :: "real list \<Rightarrow> real list" where
  "cumsum xs = cumsum_from 0 xs"

text \<open>
  \<^verbatim>\<open>np.argsort(xs)\<close>: the indices that sort \<open>xs\<close> ascending. numpy's default kind
  leaves the order of equal keys to the implementation. This is one such implementation,
  the insertion sort, which keeps equal keys in input order; the second model takes the
  sort as a parameter.
\<close>

definition argsort :: "real list \<Rightarrow> nat list" where
  "argsort xs = sort_key (\<lambda>i. xs ! i) [0..<length xs]"

text \<open>\<^verbatim>\<open>xs[idx]\<close> with an integer index array: IndexError when an index is out of range.\<close>

definition take_indices :: "'a list \<Rightarrow> nat list \<Rightarrow> error + 'a list" where
  "take_indices xs idx =
     (if list_all (\<lambda>i. i < length xs) idx then Inr (map (\<lambda>i. xs ! i) idx) else Inl IndexError)"

text \<open>\<^verbatim>\<open>xs[mask]\<close> with a boolean mask of the same length.\<close>

definition boolean_mask :: "'a list \<Rightarrow> bool list \<Rightarrow> 'a list" where
  "boolean_mask xs bs = map fst (filter snd (zip xs bs))"

section \<open>The metric evaluator\<close>

text \<open>
  \<^verbatim>\<open>amex_metric\<close>, lines 62 to 94, one definition per assignment of the source. The
  arguments of each definition are the variables the source line reads.
\<close>

text \<open>Line 77: \<^verbatim>\<open>weight = 20.0 - target * 19.0\<close>.\<close>

definition weight :: "real list \<Rightarrow> real list" where
  "weight target = map (\<lambda>t. 20 - t * 19) target"

text \<open>Line 78: \<^verbatim>\<open>cum_norm_weight = (weight / weight.sum()).cumsum()\<close>.\<close>

definition cum_norm_weight :: "real list \<Rightarrow> error + real list" where
  "cum_norm_weight w = bindE (np_div_arr w (sum_list w)) (\<lambda>nw. Inr (cumsum nw))"

text \<open>Line 79: \<^verbatim>\<open>four_pct_filter = cum_norm_weight <= 0.04\<close>.\<close>

definition four_pct_filter :: "real list \<Rightarrow> bool list" where
  "four_pct_filter cnw = map (\<lambda>c. c \<le> 4 / 100) cnw"

text \<open>Line 82: \<^verbatim>\<open>d = target[four_pct_filter].sum() / n_pos\<close>.\<close>

definition capture_rate :: "real list \<Rightarrow> bool list \<Rightarrow> real \<Rightarrow> error + real" where
  "capture_rate target flt n_pos = np_div (sum_list (boolean_mask target flt)) n_pos"

text \<open>Line 85: \<^verbatim>\<open>lorentz = (target / n_pos).cumsum()\<close>.\<close>

definition lorentz :: "real list \<Rightarrow> real \<Rightarrow> error + real list" where
  "lorentz target n_pos = bindE (np_div_arr target n_pos) (\<lambda>fr. Inr (cumsum fr))"

text \<open>Line 86: \<^verbatim>\<open>gini = ((lorentz - cum_norm_weight) * weight).sum()\<close>.\<close>

definition gini :: "real list \<Rightarrow> real list \<Rightarrow> real list \<Rightarrow> real" where
  "gini lor cnw w = sum_list (map2 (*) (map2 (-) lor cnw) w)"

text \<open>Line 89: \<^verbatim>\<open>gini_max = 10 * n_neg * (1 - 19 / (n_pos + 20 * n_neg))\<close>.\<close>

definition gini_max :: "real \<Rightarrow> real \<Rightarrow> error + real" where
  "gini_max n_pos n_neg =
     bindE (np_div 19 (n_pos + 20 * n_neg)) (\<lambda>q. Inr (10 * n_neg * (1 - q)))"

text \<open>
  Lines 68, 69 and 74 to 94: the function after the sort, as a function of the truth array
  and of the index array \<^verbatim>\<open>indices\<close>.
\<close>

definition amex_core :: "real list \<Rightarrow> nat list \<Rightarrow> error + real" where
  "amex_core y_true indices =
     (let n_pos = sum_list y_true;
          n_neg = real (length y_true) - n_pos
      in bindE (take_indices y_true indices) (\<lambda>target.
         let w = weight target
         in bindE (cum_norm_weight w) (\<lambda>cnw.
            bindE (capture_rate target (four_pct_filter cnw) n_pos) (\<lambda>d.
            bindE (lorentz target n_pos) (\<lambda>lor.
            bindE (gini_max n_pos n_neg) (\<lambda>gmax.
            bindE (np_div (gini lor cnw w) gmax) (\<lambda>g.
            Inr (0.5 * (g + d)))))))))"

text \<open>Line 72: \<^verbatim>\<open>indices = np.argsort(y_pred)[::-1]\<close>, then the rest.\<close>

definition amex_metric :: "real list \<Rightarrow> real list \<Rightarrow> error + real" where
  "amex_metric y_true y_pred = amex_core y_true (rev (argsort y_pred))"

text \<open>
  The truth values in the order the metric visits them, \<^verbatim>\<open>target = y_true[indices]\<close>
  of line 74, named so that statements can refer to it.
\<close>

definition sorted_target :: "real list \<Rightarrow> real list \<Rightarrow> real list" where
  "sorted_target y_true y_pred = map (\<lambda>i. y_true ! i) (rev (argsort y_pred))"

text \<open>The contract on the truth array: every entry is 0 or 1.\<close>

definition binary :: "real list \<Rightarrow> bool" where
  "binary ts = list_all (\<lambda>t. t = 0 \<or> t = 1) ts"

text \<open>
  The order the specification names for equal scores: a stable descending sort, which keeps
  records of equal prediction in input order.
\<close>

definition stable_descending :: "real list \<Rightarrow> nat list" where
  "stable_descending xs = sort_key (\<lambda>i. - (xs ! i)) [0..<length xs]"

section \<open>The metric evaluator in floating point\<close>

text \<open>
  The same lines 62 to 94 with what the first model idealizes left open. \<open>rnd\<close> rounds the
  exact result of one arithmetic operation to the format of the arrays (binary64 for
  \<^verbatim>\<open>float64\<close> or integer input, binary32 for \<^verbatim>\<open>float32\<close> labels);
  \<open>np_sum\<close> is \<^verbatim>\<open>ndarray.sum()\<close>, whose order of additions is numpy's own. The sort
  is a parameter \<open>sorter\<close> of the metric; \<open>is_argsort\<close> is what \<^verbatim>\<open>np.argsort\<close>
  guarantees of its result: the indices of the array, each once, in ascending order of the
  keys.
\<close>

record arith =
  rnd :: "real \<Rightarrow> real"
  np_sum :: "real list \<Rightarrow> real"

definition is_argsort :: "real list \<Rightarrow> nat list \<Rightarrow> bool" where
  "is_argsort xs idx = (mset idx = mset [0..<length xs] \<and> sorted (map (\<lambda>i. xs ! i) idx))"

definition fl_div :: "arith \<Rightarrow> real \<Rightarrow> real \<Rightarrow> error + real" where
  "fl_div E a b = (if b = 0 then Inl DivideByZero else Inr (rnd E (a / b)))"

definition fl_div_arr :: "arith \<Rightarrow> real list \<Rightarrow> real \<Rightarrow> error + real list" where
  "fl_div_arr E xs b =
     (if b = 0 \<and> xs \<noteq> [] then Inl DivideByZero else Inr (map (\<lambda>x. rnd E (x / b)) xs))"

text \<open>
  \<^verbatim>\<open>xs.cumsum()\<close>: the first entry as it is, then one rounded addition per entry, left
  to right.
\<close>

fun fl_cumsum_from :: "arith \<Rightarrow> real \<Rightarrow> real list \<Rightarrow> real list" where
  "fl_cumsum_from E acc [] = []"
| "fl_cumsum_from E acc (x # xs) = rnd E (acc + x) # fl_cumsum_from E (rnd E (acc + x)) xs"

fun fl_cumsum :: "arith \<Rightarrow> real list \<Rightarrow> real list" where
  "fl_cumsum E [] = []"
| "fl_cumsum E (x # xs) = x # fl_cumsum_from E x xs"

text \<open>Line 77.\<close>

definition fl_weight :: "arith \<Rightarrow> real list \<Rightarrow> real list" where
  "fl_weight E target = map (\<lambda>t. rnd E (20 - rnd E (t * 19))) target"

text \<open>Line 78.\<close>

definition fl_cum_norm_weight :: "arith \<Rightarrow> real list \<Rightarrow> error + real list" where
  "fl_cum_norm_weight E w =
     bindE (fl_div_arr E w (np_sum E w)) (\<lambda>nw. Inr (fl_cumsum E nw))"

text \<open>Line 79; the literal \<^verbatim>\<open>0.04\<close> is the nearest number of the format.\<close>

definition fl_four_pct_filter :: "arith \<Rightarrow> real list \<Rightarrow> bool list" where
  "fl_four_pct_filter E cnw = map (\<lambda>c. c \<le> rnd E (4 / 100)) cnw"

text \<open>Line 82.\<close>

definition fl_capture_rate :: "arith \<Rightarrow> real list \<Rightarrow> bool list \<Rightarrow> real \<Rightarrow> error + real" where
  "fl_capture_rate E target flt n_pos = fl_div E (np_sum E (boolean_mask target flt)) n_pos"

text \<open>Line 85.\<close>

definition fl_lorentz :: "arith \<Rightarrow> real list \<Rightarrow> real \<Rightarrow> error + real list" where
  "fl_lorentz E target n_pos =
     bindE (fl_div_arr E target n_pos) (\<lambda>fr. Inr (fl_cumsum E fr))"

text \<open>Line 86.\<close>

definition fl_gini :: "arith \<Rightarrow> real list \<Rightarrow> real list \<Rightarrow> real list \<Rightarrow> real" where
  "fl_gini E lor cnw w =
     np_sum E (map2 (\<lambda>a b. rnd E (a * b)) (map2 (\<lambda>l c. rnd E (l - c)) lor cnw) w)"

text \<open>Line 89, in Python's order of evaluation.\<close>

definition fl_gini_max :: "arith \<Rightarrow> real \<Rightarrow> real \<Rightarrow> error + real" where
  "fl_gini_max E n_pos n_neg =
     bindE (fl_div E 19 (rnd E (n_pos + rnd E (20 * n_neg)))) (\<lambda>q.
     Inr (rnd E (rnd E (10 * n_neg) * rnd E (1 - q))))"

text \<open>Lines 68, 69 and 74 to 94.\<close>

definition fl_amex_core :: "arith \<Rightarrow> real list \<Rightarrow> nat list \<Rightarrow> error + real" where
  "fl_amex_core E y_true indices =
     (let n_pos = np_sum E y_true;
          n_neg = rnd E (real (length y_true) - n_pos)
      in bindE (take_indices y_true indices) (\<lambda>target.
         let w = fl_weight E target
         in bindE (fl_cum_norm_weight E w) (\<lambda>cnw.
            bindE (fl_capture_rate E target (fl_four_pct_filter E cnw) n_pos) (\<lambda>d.
            bindE (fl_lorentz E target n_pos) (\<lambda>lor.
            bindE (fl_gini_max E n_pos n_neg) (\<lambda>gmax.
            bindE (fl_div E (fl_gini E lor cnw w) gmax) (\<lambda>g.
            Inr (rnd E (0.5 * rnd E (g + d))))))))))"

text \<open>Line 72, then the rest.\<close>

definition fl_amex_metric ::
  "arith \<Rightarrow> (real list \<Rightarrow> nat list) \<Rightarrow> real list \<Rightarrow> real list \<Rightarrow> error + real" where
  "fl_amex_metric E sorter y_true y_pred = fl_amex_core E y_true (rev (sorter y_pred))"

text \<open>Line 74, \<^verbatim>\<open>target = y_true[indices]\<close>, named so that statements can refer to it.\<close>

definition fl_target :: "(real list \<Rightarrow> nat list) \<Rightarrow> real list \<Rightarrow> real list \<Rightarrow> real list" where
  "fl_target sorter y_true y_pred = map (\<lambda>i. y_true ! i) (rev (sorter y_pred))"

text \<open>The arithmetic of the first model: nothing is rounded, sums are exact.\<close>

definition exact :: arith where
  "exact = \<lparr>rnd = (\<lambda>x. x), np_sum = sum_list\<rparr>"

text \<open>
  What the statements below ask of an arithmetic, for a bound \<open>m\<close> on the counts in play:
  the natural numbers up to \<open>m\<close> are numbers of the format; sums of natural numbers that
  stay within \<open>m\<close> are exact; and between \<open>1/m\<close> and \<open>m\<close> in magnitude rounding is
  accurate to one part in 32. The binary64 arithmetic defined below has these properties for
  every \<open>m\<close> from 1 to \<open>2^52\<close>, and \<open>exact\<close> has them for every \<open>m\<close>.
\<close>

definition float_like :: "arith \<Rightarrow> nat \<Rightarrow> bool" where
  "float_like E m =
     ((\<forall>k. k \<le> m \<longrightarrow> rnd E (real k) = real k)
      \<and> (\<forall>xs. list_all (\<lambda>x. x \<in> \<nat>) xs \<and> sum_list xs \<le> real m \<longrightarrow> np_sum E xs = sum_list xs)
      \<and> (\<forall>x. 1 / real m \<le> \<bar>x\<bar> \<and> \<bar>x\<bar> \<le> real m \<longrightarrow> \<bar>rnd E x - x\<bar> \<le> \<bar>x\<bar> / 32))"

subsection \<open>The metric as the specification words it\<close>

text \<open>
  A second definition, written from the specification's sentences and not from the code,
  over the truth values \<open>ts\<close> listed by descending prediction and in the arithmetic \<open>E\<close>:
  population counts, the weight of a record (20 for a negative, 1 for a positive), the
  cumulative normalized weight up to record \<open>k\<close>, the capture rate (the share of the
  positives found among the records whose cumulative normalized weight is at most 0.04), the
  weighted Gini sum, its closed-form maximum, and half the sum of normalized Gini and
  capture rate.
\<close>

definition spec_n_pos :: "real list \<Rightarrow> real" where
  "spec_n_pos ts = real (length (filter (\<lambda>t. t = 1) ts))"

definition spec_n_neg :: "real list \<Rightarrow> real" where
  "spec_n_neg ts = real (length (filter (\<lambda>t. t = 0) ts))"

definition spec_weight :: "real \<Rightarrow> real" where
  "spec_weight t = (if t = 0 then 20 else 1)"

text \<open>The running sum of \<open>f 0, \<dots>, f k\<close>, accumulated from the left.\<close>

fun running :: "arith \<Rightarrow> (nat \<Rightarrow> real) \<Rightarrow> nat \<Rightarrow> real" where
  "running E f 0 = f 0"
| "running E f (Suc k) = rnd E (running E f k + f (Suc k))"

definition spec_cum_norm_weight :: "arith \<Rightarrow> real list \<Rightarrow> nat \<Rightarrow> real" where
  "spec_cum_norm_weight E ts k =
     running E (\<lambda>i. rnd E (spec_weight (ts ! i) / (\<Sum>j<length ts. spec_weight (ts ! j)))) k"

definition spec_capture :: "arith \<Rightarrow> real list \<Rightarrow> real" where
  "spec_capture E ts =
     rnd E ((\<Sum>k<length ts. if spec_cum_norm_weight E ts k \<le> rnd E (4 / 100) then ts ! k else 0)
             / spec_n_pos ts)"

definition spec_lorenz :: "arith \<Rightarrow> real list \<Rightarrow> nat \<Rightarrow> real" where
  "spec_lorenz E ts k = running E (\<lambda>i. rnd E (ts ! i / spec_n_pos ts)) k"

definition spec_gini_sum :: "arith \<Rightarrow> real list \<Rightarrow> real" where
  "spec_gini_sum E ts =
     np_sum E (map (\<lambda>k. rnd E (rnd E (spec_lorenz E ts k - spec_cum_norm_weight E ts k)
                              * spec_weight (ts ! k)))
                 [0..<length ts])"

definition spec_gini_max :: "arith \<Rightarrow> real list \<Rightarrow> real" where
  "spec_gini_max E ts =
     rnd E (10 * spec_n_neg ts
             * rnd E (1 - rnd E (19 / (spec_n_pos ts + 20 * spec_n_neg ts))))"

definition spec_metric :: "arith \<Rightarrow> real list \<Rightarrow> real" where
  "spec_metric E ts =
     rnd E (0.5 * rnd E (rnd E (spec_gini_sum E ts / spec_gini_max E ts) + spec_capture E ts))"

section \<open>The time-series compressor\<close>

subsection \<open>Reshaping: one row of 13 steps per customer\<close>

text \<open>
  \<^verbatim>\<open>transpose_data\<close>, lines 135 to 150. Its argument is one column of the cleaned table: a
  pandas Series of numbers indexed by customer, here the list of (customer, value) pairs in
  row order. \<^verbatim>\<open>groupby("customer_ID")\<close> yields the customers in sorted order, each with
  its values in row order.
\<close>

definition observations :: "('k \<times> 'v) list \<Rightarrow> 'k \<Rightarrow> 'v list" where
  "observations data cid = map snd (filter (\<lambda>p. fst p = cid) data)"

definition groupby :: "('k::linorder \<times> 'v) list \<Rightarrow> ('k \<times> 'v list) list" where
  "groupby data = map (\<lambda>cid. (cid, observations data cid)) (sort (remdups (map fst data)))"

text \<open>
  Lines 140 to 142, the body of the loop. In Python \<^verbatim>\<open>[0] * n\<close> is empty for every
  \<^verbatim>\<open>n <= 0\<close>, which is what the truncating subtraction of \<open>nat\<close> gives.
\<close>

definition pad_row :: "real list \<Rightarrow> real list" where
  "pad_row df_val =
     (if length df_val \<noteq> 13 then replicate (13 - length df_val) 0 @ df_val else df_val)"

text \<open>
  Lines 145 to 150: \<^verbatim>\<open>pd.DataFrame(data=res_list, columns=...)\<close> with the name
  \<^verbatim>\<open>id\<close> and \<open>n\<close> series names, then \<^verbatim>\<open>set_index("id")\<close>. pandas raises ValueError
  when the rows do not have as many entries as there are column names. (It would fill a
  row that is shorter than the longest one; no such row arises here, since a row built by
  \<open>pad_row\<close> never has fewer than 13 entries.)
\<close>

definition data_frame :: "nat \<Rightarrow> ('k \<times> real list) list \<Rightarrow> error + ('k \<times> real list) list" where
  "data_frame n res_list =
     (if list_all (\<lambda>row. length (snd row) = n) res_list then Inr res_list else Inl ValueError)"

definition transpose_data :: "('k::linorder \<times> real) list \<Rightarrow> error + ('k \<times> real list) list" where
  "transpose_data data =
     data_frame 13 (map (\<lambda>(cid, df_val). (cid, pad_row df_val)) (groupby data))"

subsection \<open>Standardization and projection\<close>

text \<open>
  scikit-learn's \<^verbatim>\<open>StandardScaler\<close>: \<^verbatim>\<open>fit\<close> records the mean and the population
  standard deviation of every column, a constant column getting the scale 1, and refuses a
  matrix without rows; \<^verbatim>\<open>transform\<close> subtracts the mean and divides by the scale.
\<close>

text \<open>The fields are the attributes \<^verbatim>\<open>mean_\<close> and \<^verbatim>\<open>scale_\<close>.\<close>

record scaler =
  ss_mean :: "real list"
  ss_scale :: "real list"

definition column :: "real list list \<Rightarrow> nat \<Rightarrow> real list" where
  "column X j = map (\<lambda>r. r ! j) X"

definition np_mean :: "real list \<Rightarrow> real" where
  "np_mean xs = sum_list xs / real (length xs)"

definition np_var :: "real list \<Rightarrow> real" where
  "np_var xs = np_mean (map (\<lambda>x. (x - np_mean xs)\<^sup>2) xs)"

definition ss_fit :: "real list list \<Rightarrow> error + scaler" where
  "ss_fit X =
     (case X of
        [] \<Rightarrow> Inl ValueError
      | r # _ \<Rightarrow>
          let cols = map (column X) [0..<length r]
          in Inr \<lparr>ss_mean = map np_mean cols,
                  ss_scale = map (\<lambda>c. let s = sqrt (np_var c) in if s = 0 then 1 else s) cols\<rparr>)"

definition ss_transform :: "scaler \<Rightarrow> real list list \<Rightarrow> real list list" where
  "ss_transform sc X =
     map (\<lambda>r. map (\<lambda>(x, m, s). (x - m) / s) (zip r (zip (ss_mean sc) (ss_scale sc)))) X"

definition ss_fit_transform :: "real list list \<Rightarrow> error + real list list" where
  "ss_fit_transform X = bindE (ss_fit X) (\<lambda>sc. Inr (ss_transform sc X))"

text \<open>
  scikit-learn's \<^verbatim>\<open>PCA(n_components=1)\<close> after fitting: the column means it centres
  with, its single principal axis, and the explained-variance ratios. \<^verbatim>\<open>transform\<close>
  centres each row and takes its inner product with the axis, giving a matrix of one column.
  The fit itself is a singular value decomposition inside the library; it enters
  \<open>create_model\<close> as the parameter \<open>pca_fit\<close>.
\<close>

record pca =
  pca_mean :: "real list"
  components :: "real list"
  explained_variance_ratio :: "real list"

definition pca_transform :: "pca \<Rightarrow> real list list \<Rightarrow> real list list" where
  "pca_transform p X =
     map (\<lambda>r. [sum_list (map2 (*) (map2 (-) r (pca_mean p)) (components p))]) X"

text \<open>
  \<^verbatim>\<open>create_model\<close>, lines 153 to 160: a fresh scaler is fit and applied, the projection
  is fit on the result, and only the projection and the cumulative ratios are returned.
\<close>

definition create_model ::
  "(real list list \<Rightarrow> error + pca) \<Rightarrow> real list list \<Rightarrow> error + pca \<times> real list" where
  "create_model pca_fit data =
     bindE (ss_fit_transform data) (\<lambda>z.
     bindE (pca_fit z) (\<lambda>p.
     Inr (p, cumsum (explained_variance_ratio p))))"

text \<open>Lines 172 and 173, the body of the fitting loop for one column.\<close>

definition fit_column ::
  "(real list list \<Rightarrow> error + pca) \<Rightarrow> ('k::linorder \<times> real) list \<Rightarrow> error + pca \<times> real list" where
  "fit_column pca_fit series =
     bindE (transpose_data series) (\<lambda>t_data. create_model pca_fit (map snd t_data))"

text \<open>
  Lines 185 to 189, the body of the transform loop for one column, with the fitted model
  \<^verbatim>\<open>model_dict[col]\<close> as \<open>model\<close>: a new scaler, \<^verbatim>\<open>fit_transform\<close> on the reshaped
  column, the projection, and \<^verbatim>\<open>reshape(-1)\<close>.
\<close>

definition compress_column :: "pca \<Rightarrow> ('k::linorder \<times> real) list \<Rightarrow> error + real list" where
  "compress_column model series =
     bindE (transpose_data series) (\<lambda>t_data.
     bindE (ss_fit_transform (map snd t_data)) (\<lambda>z.
     Inr (concat (pca_transform model z))))"

text \<open>
  The transform step as the specification words it: standardize with a given, already fitted
  scale and project with the fitted axis, one scalar per customer.
\<close>

definition spec_transform :: "scaler \<Rightarrow> pca \<Rightarrow> real list list \<Rightarrow> real list" where
  "spec_transform sc model X = concat (pca_transform model (ss_transform sc X))"

text \<open>
  The scaler that line 158 fits inside \<^verbatim>\<open>create_model\<close> when the fitting loop runs
  on a column: the scale "recorded at fit time". \<^verbatim>\<open>create_model\<close> does not return it.
\<close>

definition fit_time_scaler :: "('k::linorder \<times> real) list \<Rightarrow> error + scaler" where
  "fit_time_scaler train =
     bindE (transpose_data train) (\<lambda>t_data. ss_fit (map snd t_data))"

text \<open>
  A unit axis along which the rows of a centred matrix have their whole variance; such an
  axis is a first principal axis of the matrix.
\<close>

definition first_axis :: "real list \<Rightarrow> real list list \<Rightarrow> bool" where
  "first_axis a Z =
     (sum_list (map (\<lambda>x. x\<^sup>2) a) = 1
      \<and> sum_list (map (\<lambda>r. (sum_list (map2 (*) r a))\<^sup>2) Z)
          = sum_list (map (\<lambda>r. sum_list (map (\<lambda>x. x\<^sup>2) r)) Z))"

section \<open>Preprocessing\<close>

text \<open>
  A pandas DataFrame: the row labels, the column names, and the rows of cells. A cell is
  missing, a number or a string.
\<close>

datatype cell = NaN | Num real | Str string

record frame =
  index :: "cell list"
  columns :: "string list"
  rows :: "cell list list"

text \<open>The two fixed lists of \<^verbatim>\<open>Config\<close>, lines 44 to 56.\<close>

definition category_param :: "string list" where
  "category_param =
     [''D_63'', ''D_64'', ''B_30'', ''B_38'',
      ''D_114'', ''D_116'', ''D_117'', ''D_120'', ''D_126'', ''D_66'', ''D_68'']"

definition remove_param :: "string list" where
  "remove_param =
     [''S_2'', ''D_73'', ''D_87'', ''D_88'', ''D_108'', ''D_110'', ''D_111'', ''B_39'', ''B_42'']"

fun position :: "'a \<Rightarrow> 'a list \<Rightarrow> nat" where
  "position x [] = 0"
| "position x (y # ys) = (if x = y then 0 else Suc (position x ys))"

definition cell_at :: "frame \<Rightarrow> string \<Rightarrow> cell list \<Rightarrow> cell" where
  "cell_at df c r = r ! position c (columns df)"

text \<open>
  The order \<^verbatim>\<open>sort_values\<close> puts cells in: numbers by value, strings alphabetically,
  missing cells last. (A column mixing numbers and strings is outside the model.)
\<close>

fun cell_key :: "cell \<Rightarrow> nat \<times> real \<times> string" where
  "cell_key (Num x) = (0, x, [])"
| "cell_key (Str s) = (1, 0, s)"
| "cell_key NaN = (2, 0, [])"

definition row_key :: "frame \<Rightarrow> string list \<Rightarrow> cell \<times> cell list \<Rightarrow> (nat \<times> real \<times> string) list" where
  "row_key df by lr = map (\<lambda>c. cell_key (cell_at df c (snd lr))) by"

text \<open>
  \<^verbatim>\<open>df.sort_values(by)\<close>: KeyError when a name is not a column; otherwise the rows,
  with their labels, in ascending order of the named cells, rows of equal key in input order.
\<close>

definition sort_values :: "string list \<Rightarrow> frame \<Rightarrow> error + frame" where
  "sort_values by df =
     (if list_all (\<lambda>c. c \<in> set (columns df)) by
      then let labelled = sort_key (row_key df by) (zip (index df) (rows df))
           in Inr (df\<lparr>index := map fst labelled, rows := map snd labelled\<rparr>)
      else Inl KeyError)"

text \<open>\<^verbatim>\<open>df.fillna(v)\<close>: every missing cell becomes \<open>v\<close>.\<close>

definition fillna :: "real \<Rightarrow> frame \<Rightarrow> frame" where
  "fillna v df = df\<lparr>rows := map (map (\<lambda>c. if c = NaN then Num v else c)) (rows df)\<rparr>"

text \<open>
  \<^verbatim>\<open>df.drop(labels, axis=1)\<close>: KeyError when a label is not a column; otherwise the
  frame without the labelled columns.
\<close>

definition drop_columns :: "string list \<Rightarrow> frame \<Rightarrow> error + frame" where
  "drop_columns labels df =
     (if list_all (\<lambda>c. c \<in> set (columns df)) labels
      then Inr (df\<lparr>columns := filter (\<lambda>c. c \<notin> set labels) (columns df),
                   rows := map (\<lambda>r. map snd (filter (\<lambda>cv. fst cv \<notin> set labels) (zip (columns df) r)))
                             (rows df)\<rparr>)
      else Inl KeyError)"

text \<open>
  \<^verbatim>\<open>df.set_index(c, drop=True)\<close>: KeyError when \<open>c\<close> is not a column; otherwise the
  cells of \<open>c\<close> become the row labels and the column is removed.
\<close>

definition set_index :: "string \<Rightarrow> frame \<Rightarrow> error + frame" where
  "set_index c df =
     (if c \<in> set (columns df)
      then Inr \<lparr>index = map (cell_at df c) (rows df),
                columns = filter (\<lambda>d. d \<noteq> c) (columns df),
                rows = map (\<lambda>r. map snd (filter (\<lambda>cv. fst cv \<noteq> c) (zip (columns df) r))) (rows df)\<rparr>
      else Inl KeyError)"

text \<open>
  \<^verbatim>\<open>preprocess\<close>, lines 110 to 123. The first two calls work in place on the caller's
  object; from line 116 on the local name is bound to new frames. The model returns both:
  the caller's frame as the call leaves it, and the outcome of the call. An exception leaves
  the caller's frame as it is at that point. \<^verbatim>\<open>pd.get_dummies\<close> is the parameter
  \<open>get_dummies\<close>: no statement below depends on what the encoding produces.
\<close>

definition preprocess ::
  "(frame \<Rightarrow> string list \<Rightarrow> error + frame) \<Rightarrow> frame \<Rightarrow> frame \<times> (error + frame)" where
  "preprocess get_dummies data =
     (case sort_values [''customer_ID'', ''S_2''] data of
        Inl e \<Rightarrow> (data, Inl e)
      | Inr data1 \<Rightarrow>
          let data2 = fillna 0 data1
          in (data2,
              bindE (if card (set remove_param \<inter> set (columns data2)) \<noteq> 0
                     then drop_columns remove_param data2 else Inr data2) (\<lambda>data3.
              bindE (get_dummies data3 category_param) (\<lambda>data4.
              set_index ''customer_ID'' data4))))"

section \<open>Properties of the metric evaluator\<close>

subsection \<open>Sequencing and the sort\<close>

lemma bindE_Inr: "bindE (Inr x) f = f x"
  by (simp add: bindE_def)

lemma bindE_Inl: "bindE (Inl e) f = Inl e"
  by (simp add: bindE_def)

lemma set_argsort: "set (argsort xs) = {0..<length xs}"
  by (simp add: argsort_def)

lemma length_argsort: "length (argsort xs) = length xs"
  by (simp add: argsort_def)

lemma take_indices_argsort:
  assumes "length y_true = length y_pred"
  shows "take_indices y_true (rev (argsort y_pred)) = Inr (sorted_target y_true y_pred)"
  using assms by (simp add: take_indices_def sorted_target_def list_all_iff set_argsort)

lemma mset_sorted_target:
  assumes "length y_true = length y_pred"
  shows "mset (sorted_target y_true y_pred) = mset y_true"
proof -
  have "mset (rev (argsort y_pred)) = mset [0..<length y_true]"
    using assms by (simp add: argsort_def)
  then have "mset (sorted_target y_true y_pred) = mset (map (\<lambda>i. y_true ! i) [0..<length y_true])"
    unfolding sorted_target_def mset_map by (rule arg_cong)
  then show ?thesis by (simp add: map_nth)
qed

lemma descending_argsort: "sorted (rev (map (\<lambda>i. y_pred ! i) (rev (argsort y_pred))))"
  by (simp add: rev_map argsort_def)

subsection \<open>Where a division by zero can come from\<close>

lemma cum_norm_weight_cases:
  "cum_norm_weight w = Inl DivideByZero \<or> (\<exists>c. cum_norm_weight w = Inr c)"
  by (simp add: cum_norm_weight_def np_div_arr_def bindE_def)

lemma lorentz_cases:
  "lorentz t n = Inl DivideByZero \<or> (\<exists>c. lorentz t n = Inr c)"
  by (simp add: lorentz_def np_div_arr_def bindE_def)

lemma capture_rate_cases:
  "capture_rate t f n = Inl DivideByZero \<or> (\<exists>c. capture_rate t f n = Inr c)"
  by (simp add: capture_rate_def np_div_def)

lemma capture_rate_zero: "capture_rate t f 0 = Inl DivideByZero"
  by (simp add: capture_rate_def np_div_def)

lemma lorentz_zero: "t \<noteq> [] \<Longrightarrow> lorentz t 0 = Inl DivideByZero"
  by (simp add: lorentz_def np_div_arr_def bindE_def)

lemma gini_max_no_negatives: "n_pos \<noteq> 0 \<Longrightarrow> gini_max n_pos 0 = Inr 0"
  by (simp add: gini_max_def np_div_def bindE_def)

lemma amex_core_no_positives:
  assumes "take_indices y_true idx = Inr target" and "sum_list y_true = 0"
  shows "amex_core y_true idx = Inl DivideByZero"
  using assms cum_norm_weight_cases [of "weight target"]
  by (auto simp: amex_core_def Let_def bindE_Inr bindE_Inl capture_rate_zero)

lemma amex_core_no_negatives:
  assumes "take_indices y_true idx = Inr target"
    and "real (length y_true) - sum_list y_true = 0"
  shows "amex_core y_true idx = Inl DivideByZero"
proof -
  let ?p = "sum_list y_true"
  have gm: "gini_max ?p 0 = Inl DivideByZero \<or> gini_max ?p 0 = Inr 0"
    by (simp add: gini_max_def np_div_def bindE_def)
  show ?thesis
  proof (cases "cum_norm_weight (weight target)")
    case (Inl e)
    then have "e = DivideByZero"
      using cum_norm_weight_cases [of "weight target"] by auto
    with Inl assms(1) show ?thesis
      by (simp add: amex_core_def Let_def bindE_Inr bindE_Inl)
  next
    case cnw: (Inr c)
    show ?thesis
    proof (cases "capture_rate target (four_pct_filter c) ?p")
      case (Inl e)
      then have "e = DivideByZero"
        using capture_rate_cases [of target "four_pct_filter c" ?p] by auto
      with Inl cnw assms(1) show ?thesis
        by (simp add: amex_core_def Let_def bindE_Inr bindE_Inl)
    next
      case d: (Inr d)
      show ?thesis
      proof (cases "lorentz target ?p")
        case (Inl e)
        then have "e = DivideByZero"
          using lorentz_cases [of target ?p] by auto
        with Inl cnw d assms(1) show ?thesis
          by (simp add: amex_core_def Let_def bindE_Inr bindE_Inl)
      next
        case lor: (Inr l)
        from gm show ?thesis
        proof
          assume "gini_max ?p 0 = Inl DivideByZero"
          with lor cnw d assms show ?thesis
            by (simp add: amex_core_def Let_def bindE_Inr bindE_Inl)
        next
          assume "gini_max ?p 0 = Inr 0"
          with lor cnw d assms show ?thesis
            by (simp add: amex_core_def Let_def bindE_Inr bindE_Inl np_div_def)
        qed
      qed
    qed
  qed
qed

text \<open>
  C6. When the truth array has no positives (\<^verbatim>\<open>n_pos == 0\<close>), the metric divides by
  zero and returns no score: the capture rate of line 82 divides by \<^verbatim>\<open>n_pos\<close>, and so
  does the Lorenz curve of line 85 as soon as there is a record to divide.
\<close>

theorem amex_metric_no_positives:
  assumes "length y_true = length y_pred" and "sum_list y_true = 0"
  shows "amex_metric y_true y_pred = Inl DivideByZero
    \<and> capture_rate (sorted_target y_true y_pred) flt (sum_list y_true) = Inl DivideByZero
    \<and> (y_true \<noteq> [] \<longrightarrow>
         lorentz (sorted_target y_true y_pred) (sum_list y_true) = Inl DivideByZero)"
proof -
  have "amex_metric y_true y_pred = Inl DivideByZero"
    unfolding amex_metric_def
    by (rule amex_core_no_positives [OF take_indices_argsort [OF assms(1)] assms(2)])
  moreover have "length (sorted_target y_true y_pred) = length y_true"
    using assms(1) by (simp add: sorted_target_def length_argsort)
  then have "y_true \<noteq> [] \<Longrightarrow> sorted_target y_true y_pred \<noteq> []"
    by auto
  ultimately show ?thesis
    using assms(2) by (simp add: capture_rate_zero lorentz_zero)
qed

theorem amex_metric_no_positives_witness:
  "amex_metric [0, 0] [9 / 10, 1 / 10] = Inl DivideByZero
   \<and> lorentz (sorted_target [0, 0] [9 / 10, 1 / 10]) 0 = Inl DivideByZero"
  using amex_metric_no_positives [of "[0, 0]" "[9 / 10, 1 / 10]"] by simp

text \<open>
  C8. When the truth array has no negatives (\<^verbatim>\<open>n_neg == 0\<close>), the metric returns no
  score either. With at least one record \<^verbatim>\<open>gini_max\<close> of line 89 is zero, so that
  line 92 divides by zero whatever the Gini sum is; for the empty array line 89 itself
  divides by zero.
\<close>

theorem amex_metric_no_negatives:
  assumes "length y_true = length y_pred"
    and "real (length y_true) - sum_list y_true = 0"
  shows "amex_metric y_true y_pred = Inl DivideByZero
    \<and> (y_true \<noteq> [] \<longrightarrow>
         gini_max (sum_list y_true) (real (length y_true) - sum_list y_true) = Inr 0
         \<and> np_div gini_sum 0 = Inl DivideByZero)"
proof -
  have "amex_metric y_true y_pred = Inl DivideByZero"
    unfolding amex_metric_def
    by (rule amex_core_no_negatives [OF take_indices_argsort [OF assms(1)] assms(2)])
  moreover have "y_true \<noteq> [] \<Longrightarrow> sum_list y_true \<noteq> 0"
    using assms(2) by auto
  ultimately show ?thesis
    using assms(2) by (simp add: gini_max_no_negatives np_div_def)
qed

theorem amex_metric_no_negatives_witness:
  "amex_metric [1, 1] [9 / 10, 1 / 10] = Inl DivideByZero \<and> gini_max 2 0 = Inr 0"
  using amex_metric_no_negatives [of "[1, 1]" "[9 / 10, 1 / 10]"] by simp

subsection \<open>Only the order of the predictions matters\<close>

lemma insort_key_same_order:
  assumes "\<forall>y\<in>set ys. (k1 x \<le> k1 y) = (k2 x \<le> k2 y)"
  shows "insort_key k1 x ys = insort_key k2 x ys"
  using assms by (induction ys) auto

lemma sort_key_same_order:
  assumes "\<forall>x\<in>set xs. \<forall>y\<in>set xs. (k1 x \<le> k1 y) = (k2 x \<le> k2 y)"
  shows "sort_key k1 xs = sort_key k2 xs"
  using assms
proof (induction xs)
  case Nil
  show ?case by simp
next
  case (Cons x xs)
  then have "sort_key k1 xs = sort_key k2 xs" by simp
  moreover have "insort_key k1 x (sort_key k2 xs) = insort_key k2 x (sort_key k2 xs)"
    using Cons.prems by (intro insort_key_same_order) simp
  ultimately show ?case by simp
qed

lemma strict_mono_on_le_iff:
  fixes f :: "real \<Rightarrow> real"
  assumes "strict_mono_on A f" and "x \<in> A" and "y \<in> A"
  shows "(f x \<le> f y) = (x \<le> y)"
proof
  assume "f x \<le> f y"
  show "x \<le> y"
  proof (rule ccontr)
    assume "\<not> x \<le> y"
    then have "y < x" by simp
    then have "f y < f x" using assms by (auto simp: strict_mono_on_def)
    with \<open>f x \<le> f y\<close> show False by simp
  qed
next
  assume "x \<le> y"
  then have "x = y \<or> x < y" by auto
  then show "f x \<le> f y"
    using assms by (auto simp: strict_mono_on_def less_imp_le)
qed

lemma argsort_map_strict_mono:
  assumes "strict_mono_on (set ys) f"
  shows "argsort (map f ys) = argsort ys"
  unfolding argsort_def length_map
  by (rule sort_key_same_order) (simp add: strict_mono_on_le_iff [OF assms])

text \<open>
  C4. Rescaling the predictions by a map that preserves their order (strictly increasing on
  the predicted values) leaves the outcome of the metric unchanged, for every truth array:
  the same score, or the same fault.
\<close>

theorem amex_metric_rescale:
  assumes "strict_mono_on (set y_pred) f"
  shows "amex_metric y_true (map f y_pred) = amex_metric y_true y_pred"
  by (simp add: amex_metric_def argsort_map_strict_mono [OF assms])

theorem amex_metric_rescale_witness:
  "strict_mono_on (set [1 / 10, 9 / 10, 1 / 2]) (\<lambda>x::real. 2 * x + 1)
   \<and> amex_metric [0, 1, 0] [6 / 5, 14 / 5, 2] = amex_metric [0, 1, 0] [1 / 10, 9 / 10, 1 / 2]
   \<and> amex_metric [0, 1, 0] [1 / 10, 9 / 10, 1 / 2] = Inr 1"
proof -
  have m: "strict_mono_on (set [1 / 10, 9 / 10, 1 / 2]) (\<lambda>x::real. 2 * x + 1)"
    by (simp add: strict_mono_on_def)
  have v: "amex_metric [0, 1, 0] [1 / 10, 9 / 10, 1 / 2] = Inr 1"
    by code_simp
  show ?thesis
    using amex_metric_rescale [OF m, of "[0, 1, 0]"] m v by simp
qed

subsection \<open>The order of tied predictions\<close>

lemma insort_key_pair:
  fixes f :: "nat \<Rightarrow> real"
  assumes "\<forall>e\<in>set ys. x < e"
  shows "map (\<lambda>i. (f i, i)) (insort_key f x ys) = insort (f x, x) (map (\<lambda>i. (f i, i)) ys)"
  using assms by (induction ys) (auto simp: less_eq_prod_def)

lemma sort_key_pair:
  fixes f :: "nat \<Rightarrow> real"
  assumes "sorted xs" and "distinct xs"
  shows "map (\<lambda>i. (f i, i)) (sort_key f xs) = sort (map (\<lambda>i. (f i, i)) xs)"
  using assms
proof (induction xs)
  case Nil
  show ?case by simp
next
  case (Cons x xs)
  then have "\<forall>e\<in>set (sort_key f xs). x < e"
    by (auto simp: less_le)
  then show ?case
    using Cons by (simp add: insort_key_pair)
qed

lemma zip_upt_map: "zip xs [0..<length xs] = map (\<lambda>i. (xs ! i, i)) [0..<length xs]"
  by (rule nth_equalityI) auto

lemma argsort_pairs:
  "map (\<lambda>i. (y_pred ! i, i)) (rev (argsort y_pred)) = rev (sort (zip y_pred [0..<length y_pred]))"
  by (simp add: rev_map [symmetric] argsort_def sort_key_pair zip_upt_map)

lemma argsort_pairs_decreasing:
  assumes "a < b" and "b < length y_pred"
  shows "(y_pred ! (rev (argsort y_pred) ! b), rev (argsort y_pred) ! b)
           < (y_pred ! (rev (argsort y_pred) ! a), rev (argsort y_pred) ! a)"
proof -
  let ?idx = "rev (argsort y_pred)"
  let ?ps = "map (\<lambda>i. (y_pred ! i, i)) ?idx"
  have len: "length ?ps = length y_pred"
    by (simp add: length_argsort)
  have srt: "sorted (rev ?ps)"
    unfolding argsort_pairs by simp
  have dst: "distinct ?ps"
    unfolding argsort_pairs by (simp add: distinct_zipI2)
  have "?ps ! b \<le> ?ps ! a"
    using sorted_rev_nth_mono [OF srt, of a b] assms len by simp
  moreover have "a < length ?ps" and "b < length ?ps" and "a \<noteq> b"
    using assms len by simp_all
  then have "?ps ! a \<noteq> ?ps ! b"
    by (simp only: nth_eq_iff_index_eq [OF dst] not_False_eq_True)
  ultimately have "?ps ! b < ?ps ! a"
    by simp
  then show ?thesis
    using assms by (simp add: length_argsort)
qed

subsection \<open>What the sort guarantees\<close>

lemma is_argsort_argsort: "is_argsort xs (argsort xs)"
  by (simp add: is_argsort_def argsort_def)

lemma float_like_exact: "float_like exact m"
  by (simp add: float_like_def exact_def)

lemma is_argsort_set: "is_argsort xs idx \<Longrightarrow> set idx = {0..<length xs}"
  by (metis is_argsort_def mset_eq_setD set_upt)




lemma is_argsort_rev_stable_descending: "is_argsort xs (rev (stable_descending xs))"
proof -
  have "sorted (map (\<lambda>i. - (xs ! i)) (stable_descending xs))"
    by (simp add: stable_descending_def)
  then have "sorted (map uminus (map (\<lambda>i. xs ! i) (stable_descending xs)))"
    by (simp add: comp_def)
  then have "sorted (rev (map (\<lambda>i. xs ! i) (stable_descending xs)))"
    by (simp add: sorted_wrt_rev sorted_wrt_map)
  then show ?thesis
    by (simp add: is_argsort_def rev_map stable_descending_def)
qed




text \<open>
  That the order of ties is open is not idle: the insertion sort and the sort that leaves
  equal keys in reverse input order both return what \<^verbatim>\<open>np.argsort\<close> may return, and
  on two records of equal prediction the metric gives two different scores with them.
\<close>

lemma tie_order_open:
  "is_argsort [1 / 2, 1 / 2] (argsort [1 / 2, 1 / 2])
   \<and> is_argsort [1 / 2, 1 / 2] (rev (stable_descending [1 / 2, 1 / 2]))
   \<and> fl_amex_metric exact argsort [1, 0] [1 / 2, 1 / 2] = Inr (- 10)
   \<and> fl_amex_metric exact (\<lambda>xs. rev (stable_descending xs)) [1, 0] [1 / 2, 1 / 2] = Inr (1 / 2)"
proof -
  have "fl_amex_metric exact argsort [1, 0] [1 / 2, 1 / 2] = Inr (- 10)"
    by code_simp
  moreover have "fl_amex_metric exact (\<lambda>xs. rev (stable_descending xs)) [1, 0] [1 / 2, 1 / 2]
                   = Inr (1 / 2)"
    by code_simp
  ultimately show ?thesis
    by (simp only: is_argsort_argsort is_argsort_rev_stable_descending simp_thms)
qed

section \<open>Properties of the metric evaluator in floating point\<close>

subsection \<open>The first model is an instance\<close>

lemma fl_cumsum_from_exact: "fl_cumsum_from exact a xs = cumsum_from a xs"
  by (induction xs arbitrary: a) (simp_all add: exact_def)

lemma fl_cumsum_exact: "fl_cumsum exact xs = cumsum xs"
  by (cases xs) (simp_all add: cumsum_def fl_cumsum_from_exact)

lemma rnd_exact: "rnd exact x = x"
  by (simp add: exact_def)

lemma np_sum_exact: "np_sum exact xs = sum_list xs"
  by (simp add: exact_def)

lemma fl_div_exact: "fl_div exact a b = np_div a b"
  by (simp add: fl_div_def np_div_def rnd_exact)

lemma fl_div_arr_exact: "fl_div_arr exact xs b = np_div_arr xs b"
  by (simp add: fl_div_arr_def np_div_arr_def rnd_exact)

lemma fl_weight_exact: "fl_weight exact target = weight target"
  by (simp add: fl_weight_def weight_def rnd_exact)

lemma fl_cum_norm_weight_exact: "fl_cum_norm_weight exact w = cum_norm_weight w"
  by (simp add: fl_cum_norm_weight_def cum_norm_weight_def fl_div_arr_exact np_sum_exact
      fl_cumsum_exact)

lemma fl_four_pct_filter_exact: "fl_four_pct_filter exact cnw = four_pct_filter cnw"
  by (simp add: fl_four_pct_filter_def four_pct_filter_def rnd_exact)

lemma fl_capture_rate_exact: "fl_capture_rate exact target flt n_pos = capture_rate target flt n_pos"
  by (simp add: fl_capture_rate_def capture_rate_def fl_div_exact np_sum_exact)

lemma fl_lorentz_exact: "fl_lorentz exact target n_pos = lorentz target n_pos"
  by (simp add: fl_lorentz_def lorentz_def fl_div_arr_exact fl_cumsum_exact)

lemma fl_gini_exact: "fl_gini exact lor cnw w = gini lor cnw w"
  by (simp add: fl_gini_def gini_def rnd_exact np_sum_exact)

lemma fl_gini_max_exact: "fl_gini_max exact n_pos n_neg = gini_max n_pos n_neg"
  by (simp add: fl_gini_max_def gini_max_def fl_div_exact rnd_exact)

lemma fl_amex_core_exact: "fl_amex_core exact y_true idx = amex_core y_true idx"
  unfolding fl_amex_core_def amex_core_def
  by (simp only: rnd_exact np_sum_exact fl_div_exact fl_weight_exact fl_cum_norm_weight_exact
      fl_four_pct_filter_exact fl_capture_rate_exact fl_lorentz_exact fl_gini_exact
      fl_gini_max_exact)

lemma fl_amex_metric_exact: "fl_amex_metric exact argsort y_true y_pred = amex_metric y_true y_pred"
  by (simp add: fl_amex_metric_def amex_metric_def fl_amex_core_exact)


subsection \<open>Rounded running sums and exact counts\<close>

lemma float_like_nat: "float_like E m \<Longrightarrow> k \<le> m \<Longrightarrow> rnd E (real k) = real k"
  by (simp add: float_like_def)

lemma float_like_sum:
  "float_like E m \<Longrightarrow> list_all (\<lambda>x. x \<in> \<nat>) xs \<Longrightarrow> sum_list xs \<le> real m \<Longrightarrow> np_sum E xs = sum_list xs"
  by (simp add: float_like_def)

lemma float_like_accurate:
  "float_like E m \<Longrightarrow> 1 / real m \<le> \<bar>x\<bar> \<Longrightarrow> \<bar>x\<bar> \<le> real m \<Longrightarrow> \<bar>rnd E x - x\<bar> \<le> \<bar>x\<bar> / 32"
  by (simp add: float_like_def)

lemma float_like_pos:
  assumes "float_like E m" and "1 / real m \<le> x" and "x \<le> real m" and "0 < x"
  shows "31 / 32 * x \<le> rnd E x" and "rnd E x \<le> 33 / 32 * x"
proof -
  have "\<bar>x\<bar> = x" using assms(4) by simp
  then have "\<bar>rnd E x - x\<bar> \<le> \<bar>x\<bar> / 32"
    using assms by (intro float_like_accurate) simp_all
  with \<open>\<bar>x\<bar> = x\<close> have "\<bar>rnd E x - x\<bar> \<le> x / 32" by simp
  then show "31 / 32 * x \<le> rnd E x" and "rnd E x \<le> 33 / 32 * x"
    by linarith+
qed

lemma length_fl_cumsum_from: "length (fl_cumsum_from E a xs) = length xs"
  by (induction xs arbitrary: a) auto

lemma length_fl_cumsum: "length (fl_cumsum E xs) = length xs"
  by (cases xs) (simp_all add: length_fl_cumsum_from)

lemma fl_cumsum_from_0: "xs \<noteq> [] \<Longrightarrow> fl_cumsum_from E a xs ! 0 = rnd E (a + xs ! 0)"
  by (cases xs) simp_all

lemma fl_cumsum_from_Suc:
  "Suc k < length xs \<Longrightarrow>
   fl_cumsum_from E a xs ! Suc k = rnd E (fl_cumsum_from E a xs ! k + xs ! Suc k)"
proof (induction xs arbitrary: a k)
  case Nil
  then show ?case by simp
next
  case (Cons x xs)
  show ?case
  proof (cases k)
    case 0
    with Cons.prems show ?thesis
      by (simp add: fl_cumsum_from_0)
  next
    case (Suc j)
    with Cons.prems have "Suc j < length xs" by simp
    from Cons.IH [OF this] Suc show ?thesis by simp
  qed
qed

lemma fl_cumsum_nth: "k < length xs \<Longrightarrow> fl_cumsum E xs ! k = running E (\<lambda>i. xs ! i) k"
proof (induction k)
  case 0
  then show ?case by (cases xs) simp_all
next
  case (Suc k)
  then obtain x ys where xs: "xs = x # ys" by (cases xs) auto
  from Suc have IH: "fl_cumsum E xs ! k = running E (\<lambda>i. xs ! i) k" by simp
  have "fl_cumsum E xs ! Suc k = rnd E (fl_cumsum E xs ! k + xs ! Suc k)"
  proof (cases k)
    case 0
    with Suc.prems xs show ?thesis by (simp add: fl_cumsum_from_0)
  next
    case (Suc j)
    with Suc.prems xs have "Suc j < length ys" by simp
    from fl_cumsum_from_Suc [OF this] Suc xs show ?thesis by simp
  qed
  with IH show ?case by simp
qed

lemma running_cong: "(\<And>i. i \<le> k \<Longrightarrow> f i = g i) \<Longrightarrow> running E f k = running E g k"
  by (induction k) simp_all

lemma sum_list_boolean_mask:
  fixes xs :: "real list"
  assumes "length xs = length bs"
  shows "sum_list (boolean_mask xs bs) = (\<Sum>k<length xs. if bs ! k then xs ! k else 0)"
  using assms
proof (induction xs bs rule: list_induct2)
  case Nil
  show ?case by (simp add: boolean_mask_def)
next
  case (Cons x xs b bs)
  then show ?case
    by (simp add: boolean_mask_def sum.lessThan_Suc_shift del: sum.lessThan_Suc cong: if_cong)
qed

lemma sum_list_nth_lessThan:
  fixes xs :: "real list"
  shows "sum_list xs = (\<Sum>k<length xs. xs ! k)"
  by (simp add: sum_list_sum_nth lessThan_atLeast0)

lemma binary_sum_list: "binary ts \<Longrightarrow> sum_list ts = spec_n_pos ts"
  by (induction ts) (auto simp: binary_def spec_n_pos_def)

lemma binary_length: "binary ts \<Longrightarrow> real (length ts) = spec_n_pos ts + spec_n_neg ts"
  by (induction ts) (auto simp: binary_def spec_n_pos_def spec_n_neg_def)

lemma binary_weight_sum:
  "binary ts \<Longrightarrow> sum_list (map spec_weight ts) = spec_n_pos ts + 20 * spec_n_neg ts"
  by (induction ts) (auto simp: binary_def spec_weight_def spec_n_pos_def spec_n_neg_def)

lemma spec_weight_total:
  "(\<Sum>i<length ts. spec_weight (ts ! i)) = sum_list (map spec_weight ts)"
  by (simp add: sum_list_nth_lessThan)

lemma spec_n_pos_ge: "1 \<in> set ts \<Longrightarrow> 1 \<le> spec_n_pos ts"
proof -
  assume "1 \<in> set ts"
  then have "filter (\<lambda>t. t = 1) ts \<noteq> []"
    by (auto simp: filter_empty_conv)
  then have "1 \<le> length (filter (\<lambda>t. t = 1) ts)"
    by (cases "filter (\<lambda>t. t = 1) ts") auto
  then show ?thesis by (simp add: spec_n_pos_def)
qed

lemma spec_n_neg_ge: "0 \<in> set ts \<Longrightarrow> 1 \<le> spec_n_neg ts"
proof -
  assume "0 \<in> set ts"
  then have "filter (\<lambda>t. t = 0) ts \<noteq> []"
    by (auto simp: filter_empty_conv)
  then have "1 \<le> length (filter (\<lambda>t. t = 0) ts)"
    by (cases "filter (\<lambda>t. t = 0) ts") auto
  then show ?thesis by (simp add: spec_n_neg_def)
qed

lemma binary_nat: "binary ts \<Longrightarrow> list_all (\<lambda>x. x \<in> \<nat>) ts"
  by (auto simp: binary_def list_all_iff)

lemma spec_weight_nat: "list_all (\<lambda>x. x \<in> \<nat>) (map spec_weight ts)"
  by (auto simp: list_all_iff spec_weight_def)

lemma boolean_mask_nat: "list_all (\<lambda>x. x \<in> \<nat>) ts \<Longrightarrow> list_all (\<lambda>x. x \<in> \<nat>) (boolean_mask ts bs)"
  by (auto simp: list_all_iff boolean_mask_def dest: set_zip_leftD)

lemma boolean_mask_sum_le:
  assumes "binary ts" and "length ts = length bs"
  shows "sum_list (boolean_mask ts bs) \<le> real (length ts)"
  using assms(2,1)
  by (induction ts bs rule: list_induct2) (auto simp: boolean_mask_def binary_def)

subsection \<open>The metric computes the specified formula\<close>

lemma fl_weight_binary:
  assumes "float_like E m" and "20 \<le> m" and "binary ts"
  shows "fl_weight E ts = map spec_weight ts"
proof -
  have r: "rnd E 0 = 0" "rnd E 1 = 1" "rnd E 19 = 19" "rnd E 20 = 20"
    using float_like_nat [OF assms(1), of 0] float_like_nat [OF assms(1), of 1]
      float_like_nat [OF assms(1), of 19] float_like_nat [OF assms(1), of 20] assms(2)
    by simp_all
  have "\<And>t. t = 0 \<or> t = 1 \<Longrightarrow> rnd E (20 - rnd E (t * 19)) = spec_weight t"
    using r by (auto simp: spec_weight_def)
  then show ?thesis
    using assms(3) by (simp add: fl_weight_def binary_def list_all_iff)
qed

lemma fl_cum_norm_weight_spec:
  assumes "np_sum E (map spec_weight ts) = sum_list (map spec_weight ts)"
    and "sum_list (map spec_weight ts) \<noteq> 0"
  shows "\<exists>cnw. fl_cum_norm_weight E (map spec_weight ts) = Inr cnw
    \<and> length cnw = length ts
    \<and> (\<forall>k<length ts. cnw ! k = spec_cum_norm_weight E ts k)"
proof -
  let ?W = "sum_list (map spec_weight ts)"
  let ?nw = "map (\<lambda>x. rnd E (x / ?W)) (map spec_weight ts)"
  have "fl_cum_norm_weight E (map spec_weight ts) = Inr (fl_cumsum E ?nw)"
    using assms by (simp add: fl_cum_norm_weight_def fl_div_arr_def bindE_def)
  moreover have "length (fl_cumsum E ?nw) = length ts"
    by (simp add: length_fl_cumsum)
  moreover have "\<forall>k<length ts. fl_cumsum E ?nw ! k = spec_cum_norm_weight E ts k"
  proof (intro allI impI)
    fix k assume k: "k < length ts"
    then have "fl_cumsum E ?nw ! k = running E (\<lambda>i. ?nw ! i) k"
      by (simp add: fl_cumsum_nth)
    also have "\<dots> = running E (\<lambda>i. rnd E (spec_weight (ts ! i) / ?W)) k"
      using k by (intro running_cong) simp
    finally show "fl_cumsum E ?nw ! k = spec_cum_norm_weight E ts k"
      by (simp add: spec_cum_norm_weight_def spec_weight_total)
  qed
  ultimately show ?thesis by blast
qed

lemma fl_lorentz_spec:
  assumes "spec_n_pos ts \<noteq> 0"
  shows "\<exists>lor. fl_lorentz E ts (spec_n_pos ts) = Inr lor
    \<and> length lor = length ts
    \<and> (\<forall>k<length ts. lor ! k = spec_lorenz E ts k)"
proof -
  let ?fr = "map (\<lambda>t. rnd E (t / spec_n_pos ts)) ts"
  have "fl_lorentz E ts (spec_n_pos ts) = Inr (fl_cumsum E ?fr)"
    using assms by (simp add: fl_lorentz_def fl_div_arr_def bindE_def)
  moreover have "length (fl_cumsum E ?fr) = length ts"
    by (simp add: length_fl_cumsum)
  moreover have "\<forall>k<length ts. fl_cumsum E ?fr ! k = spec_lorenz E ts k"
  proof (intro allI impI)
    fix k assume k: "k < length ts"
    then have "fl_cumsum E ?fr ! k = running E (\<lambda>i. ?fr ! i) k"
      by (simp add: fl_cumsum_nth)
    also have "\<dots> = running E (\<lambda>i. rnd E (ts ! i / spec_n_pos ts)) k"
      using k by (intro running_cong) simp
    finally show "fl_cumsum E ?fr ! k = spec_lorenz E ts k"
      by (simp add: spec_lorenz_def)
  qed
  ultimately show ?thesis by blast
qed

lemma fl_capture_rate_spec:
  assumes fl: "float_like E m" and m: "real (length ts) \<le> real m"
    and bin: "binary ts"
    and len: "length cnw = length ts"
    and cnw: "\<forall>k<length ts. cnw ! k = spec_cum_norm_weight E ts k"
    and pos: "spec_n_pos ts \<noteq> 0"
  shows "fl_capture_rate E ts (fl_four_pct_filter E cnw) (spec_n_pos ts) = Inr (spec_capture E ts)"
proof -
  let ?flt = "fl_four_pct_filter E cnw"
  have l: "length ts = length ?flt"
    using len by (simp add: fl_four_pct_filter_def)
  have "sum_list (boolean_mask ts ?flt) \<le> real m"
    using boolean_mask_sum_le [OF bin l] m by simp
  then have "np_sum E (boolean_mask ts ?flt) = sum_list (boolean_mask ts ?flt)"
    by (intro float_like_sum [OF fl] boolean_mask_nat binary_nat [OF bin])
  also have "\<dots> = (\<Sum>k<length ts. if ?flt ! k then ts ! k else 0)"
    by (rule sum_list_boolean_mask [OF l])
  also have "\<dots> = (\<Sum>k<length ts. if spec_cum_norm_weight E ts k \<le> rnd E (4 / 100)
                                      then ts ! k else 0)"
    using len cnw by (intro sum.cong) (auto simp: fl_four_pct_filter_def)
  finally show ?thesis
    using pos by (simp add: fl_capture_rate_def fl_div_def spec_capture_def)
qed

lemma fl_gini_spec:
  assumes "length cnw = length ts"
    and "\<forall>k<length ts. cnw ! k = spec_cum_norm_weight E ts k"
    and "length lor = length ts"
    and "\<forall>k<length ts. lor ! k = spec_lorenz E ts k"
  shows "fl_gini E lor cnw (map spec_weight ts) = spec_gini_sum E ts"
proof -
  have "map2 (\<lambda>a b. rnd E (a * b)) (map2 (\<lambda>l c. rnd E (l - c)) lor cnw) (map spec_weight ts)
          = map (\<lambda>k. rnd E (rnd E (spec_lorenz E ts k - spec_cum_norm_weight E ts k)
                              * spec_weight (ts ! k))) [0..<length ts]"
    using assms by (intro nth_equalityI) simp_all
  then show ?thesis
    by (simp add: fl_gini_def spec_gini_sum_def)
qed

lemma fl_gini_max_spec:
  assumes fl: "float_like E m" and p: "1 \<le> p" and q: "1 \<le> q" and m: "p + 20 * q \<le> m"
  shows "fl_gini_max E (real p) (real q)
           = Inr (rnd E (10 * real q * rnd E (1 - rnd E (19 / (real p + 20 * real q)))))"
    and "rnd E (10 * real q * rnd E (1 - rnd E (19 / (real p + 20 * real q)))) \<noteq> 0"
proof -
  let ?X = "real p + 20 * real q"
  let ?r = "rnd E (19 / ?X)"
  let ?y = "rnd E (1 - ?r)"
  have e20: "rnd E (20 * real q) = 20 * real q"
    using float_like_nat [OF fl, of "20 * q"] m by simp
  have eX: "rnd E ?X = ?X"
    using float_like_nat [OF fl, of "p + 20 * q"] m by simp
  have e10: "rnd E (10 * real q) = 10 * real q"
    using float_like_nat [OF fl, of "10 * q"] m by simp
  have X21: "21 \<le> ?X" using p q by simp
  then have X0: "?X \<noteq> 0" by simp
  show "fl_gini_max E (real p) (real q) = Inr (rnd E (10 * real q * ?y))"
    using X0 by (simp add: fl_gini_max_def fl_div_def bindE_def e20 eX e10 del: of_nat_mult of_nat_add)
  have "real (p + 20 * q) \<le> real m"
    using m by (rule of_nat_mono)
  then have Xm: "?X \<le> real m" by simp
  have m21: "21 \<le> real m"
    using X21 Xm by linarith
  have inv_m: "1 / real m \<le> 1 / 21"
    using m21 by (intro divide_left_mono) simp_all
  have q1: "19 / ?X \<le> 19 / 21"
    using X21 by (intro divide_left_mono) simp_all
  have "1 / real m \<le> 1 / ?X"
    using Xm X21 by (intro divide_left_mono) simp_all
  also have "\<dots> \<le> 19 / ?X"
    using X21 by (intro divide_right_mono) simp_all
  finally have q_lo: "1 / real m \<le> 19 / ?X" .
  have q_pos: "0 < 19 / ?X" using X21 by simp
  have q_hi: "19 / ?X \<le> real m" using q1 m21 by linarith
  have "31 / 32 * (19 / ?X) \<le> ?r" and "?r \<le> 33 / 32 * (19 / ?X)"
    using float_like_pos [OF fl q_lo q_hi q_pos] by simp_all
  then have r0: "0 \<le> ?r" and r1: "?r \<le> 627 / 672"
    using q_pos q1 by linarith+
  have y_lo: "1 / real m \<le> 1 - ?r" and y_hi: "1 - ?r \<le> real m" and y_pos: "0 < 1 - ?r"
    using r0 r1 m21 inv_m by linarith+
  have y1: "31 / 32 * (1 - ?r) \<le> ?y" and y2: "?y \<le> 33 / 32 * (1 - ?r)"
    using float_like_pos [OF fl y_lo y_hi y_pos] by simp_all
  have "1 / 21 \<le> 31 / 32 * (1 - ?r)"
    using r1 by simp
  then have ypos: "1 / 21 \<le> ?y"
    using y1 by (rule order_trans)
  have "33 / 32 * (1 - ?r) \<le> 33 / 32"
    using r0 by simp
  with y2 have yle: "?y \<le> 33 / 32"
    by (rule order_trans)
  have q10: "10 \<le> 10 * real q" using q by simp
  have "10 * (1 / 21) \<le> 10 * real q * ?y"
    using q10 ypos by (intro mult_mono) simp_all
  then have z21: "1 / 21 \<le> 10 * real q * ?y" by linarith
  then have z_lo: "1 / real m \<le> 10 * real q * ?y" and z_pos: "0 < 10 * real q * ?y"
    using inv_m by linarith+
  have "10 * real q * ?y \<le> 10 * real q * (33 / 32)"
    using yle q by (intro mult_left_mono) simp_all
  also have "\<dots> \<le> real p + 20 * real q" using p q by simp
  also have "\<dots> \<le> real m" by (rule Xm)
  finally have z_hi: "10 * real q * ?y \<le> real m" .
  have "31 / 32 * (10 * real q * ?y) \<le> rnd E (10 * real q * ?y)"
    by (rule float_like_pos(1) [OF fl z_lo z_hi z_pos])
  then show "rnd E (10 * real q * ?y) \<noteq> 0"
    using z_pos by linarith
qed

lemma fl_amex_core_spec:
  assumes fl: "float_like E (20 * length y_true)"
    and ti: "take_indices y_true idx = Inr ts"
    and bin: "binary ts"
    and ms: "mset ts = mset y_true"
    and pos: "1 \<in> set ts"
    and neg: "0 \<in> set ts"
  shows "fl_amex_core E y_true idx = Inr (spec_metric E ts)"
proof -
  let ?m = "20 * length y_true"
  let ?p = "length (filter (\<lambda>t. t = 1) ts)" and ?q = "length (filter (\<lambda>t. t = 0) ts)"
  let ?P = "spec_n_pos ts" and ?N = "spec_n_neg ts"
  let ?w = "map spec_weight ts"
  have P: "?P = real ?p" and N: "?N = real ?q"
    by (simp_all add: spec_n_pos_def spec_n_neg_def)
  have len: "length ts = length y_true"
    using ms by (metis size_mset)
  have P1: "1 \<le> ?P" and N1: "1 \<le> ?N"
    using pos neg by (simp_all add: spec_n_pos_ge spec_n_neg_ge)
  then have p1: "1 \<le> ?p" and q1: "1 \<le> ?q"
    unfolding P N by simp_all
  have "real (length ts) = real ?p + real ?q"
    using binary_length [OF bin] by (simp add: P N)
  then have pq: "length y_true = ?p + ?q"
    using len by (metis of_nat_add of_nat_eq_iff)
  have m20: "20 \<le> ?m" and pm: "?p \<le> ?m" and qm: "?q \<le> ?m" and Xm: "?p + 20 * ?q \<le> ?m"
    using pq p1 q1 by simp_all
  have bin_y: "binary y_true"
    using bin mset_eq_setD [OF ms] by (simp add: binary_def list_all_iff)
  have sum_y: "sum_list y_true = ?P"
    using ms binary_sum_list [OF bin] by (metis sum_mset_sum_list)
  have "sum_list y_true \<le> real ?m"
    unfolding sum_y P using pm by (simp only: of_nat_le_iff)
  then have np: "np_sum E y_true = ?P"
    using float_like_sum [OF fl binary_nat [OF bin_y]] sum_y by simp
  have "real (length y_true) - ?P = ?N"
    using binary_length [OF bin] len by simp
  moreover have "rnd E ?N = ?N"
    unfolding N using qm by (rule float_like_nat [OF fl])
  ultimately have nn: "rnd E (real (length y_true) - ?P) = ?N"
    by simp
  have w: "fl_weight E ts = ?w"
    by (rule fl_weight_binary [OF fl m20 bin])
  have W: "sum_list ?w = ?P + 20 * ?N"
    by (rule binary_weight_sum [OF bin])
  have "real (?p + 20 * ?q) \<le> real ?m"
    using Xm by (rule of_nat_mono)
  then have "sum_list ?w \<le> real ?m"
    unfolding W P N by simp
  then have Wsum: "np_sum E ?w = sum_list ?w"
    by (rule float_like_sum [OF fl spec_weight_nat])
  have W0: "sum_list ?w \<noteq> 0"
    using W P1 N1 by simp
  from fl_cum_norm_weight_spec [OF Wsum W0] obtain cnw where
    cnw: "fl_cum_norm_weight E ?w = Inr cnw" and cnw_len: "length cnw = length ts"
    and cnw_nth: "\<forall>k<length ts. cnw ! k = spec_cum_norm_weight E ts k"
    by blast
  have P0: "?P \<noteq> 0" using P1 by simp
  have lm: "real (length ts) \<le> real ?m"
    using len by simp
  have d: "fl_capture_rate E ts (fl_four_pct_filter E cnw) ?P = Inr (spec_capture E ts)"
    by (rule fl_capture_rate_spec [OF fl lm bin cnw_len cnw_nth P0])
  from fl_lorentz_spec [OF P0] obtain lor where
    lor: "fl_lorentz E ts ?P = Inr lor" and lor_len: "length lor = length ts"
    and lor_nth: "\<forall>k<length ts. lor ! k = spec_lorenz E ts k"
    by blast
  have g: "fl_gini E lor cnw ?w = spec_gini_sum E ts"
    by (rule fl_gini_spec [OF cnw_len cnw_nth lor_len lor_nth])
  have gm: "fl_gini_max E ?P ?N = Inr (spec_gini_max E ts)"
    and gm0: "spec_gini_max E ts \<noteq> 0"
    using fl_gini_max_spec [OF fl p1 q1 Xm] by (simp_all add: spec_gini_max_def P N)
  have gd: "fl_div E (spec_gini_sum E ts) (spec_gini_max E ts)
              = Inr (rnd E (spec_gini_sum E ts / spec_gini_max E ts))"
    using gm0 by (simp add: fl_div_def)
  show ?thesis
    unfolding fl_amex_core_def Let_def np nn ti bindE_Inr w cnw d lor gm g gd spec_metric_def
    by (rule refl)
qed

lemma is_argsort_take:
  assumes "length y_true = length y_pred" and "is_argsort y_pred idx"
  shows "take_indices y_true (rev idx) = Inr (map (\<lambda>i. y_true ! i) (rev idx))"
    and "mset (map (\<lambda>i. y_true ! i) (rev idx)) = mset y_true"
proof -
  show "take_indices y_true (rev idx) = Inr (map (\<lambda>i. y_true ! i) (rev idx))"
    using assms by (simp add: take_indices_def list_all_iff is_argsort_set)
  have "mset (rev idx) = mset [0..<length y_true]"
    using assms by (simp add: is_argsort_def)
  then have "mset (map (\<lambda>i. y_true ! i) (rev idx)) = mset (map (\<lambda>i. y_true ! i) [0..<length y_true])"
    unfolding mset_map by (rule arg_cong)
  then show "mset (map (\<lambda>i. y_true ! i) (rev idx)) = mset y_true"
    by (simp add: map_nth)
qed


text \<open>
  C2. For truth and prediction arrays of equal length, the truth binary with at least one
  positive and one negative, in every arithmetic that is float-like up to 20 times the
  number of records and with every sort, the metric returns a score, and the score is the
  one the specification describes, computed over the records in the order of line 72: a
  permutation of the records with non-increasing predictions, weights 20 for negatives and
  1 for positives, the capture rate within cumulative normalized weight 0.04, the weighted
  Gini sum over the closed-form maximum, and half their sum.
\<close>

theorem amex_metric_formula:
  assumes "float_like E (20 * length y_true)"
    and "is_argsort y_pred (sorter y_pred)"
    and "length y_true = length y_pred"
    and "binary y_true"
    and "1 \<in> set y_true"
    and "0 \<in> set y_true"
  shows "fl_amex_metric E sorter y_true y_pred
           = Inr (spec_metric E (fl_target sorter y_true y_pred))
    \<and> fl_weight E (fl_target sorter y_true y_pred)
         = map spec_weight (fl_target sorter y_true y_pred)
    \<and> mset (rev (sorter y_pred)) = mset [0..<length y_pred]
    \<and> sorted (rev (map (\<lambda>i. y_pred ! i) (rev (sorter y_pred))))"
proof -
  let ?ts = "fl_target sorter y_true y_pred"
  have ti: "take_indices y_true (rev (sorter y_pred)) = Inr ?ts"
    and ms: "mset ?ts = mset y_true"
    using is_argsort_take [OF assms(3,2)] by (simp_all add: fl_target_def)
  have st: "set ?ts = set y_true"
    using ms by (rule mset_eq_setD)
  have bin: "binary ?ts"
    using assms(4) st by (simp add: binary_def list_all_iff)
  have pos: "1 \<in> set ?ts" and neg: "0 \<in> set ?ts"
    using assms(5,6) st by simp_all
  have "fl_amex_metric E sorter y_true y_pred = Inr (spec_metric E ?ts)"
    unfolding fl_amex_metric_def
    by (rule fl_amex_core_spec [OF assms(1) ti bin ms pos neg])
  moreover have "20 \<le> 20 * length y_true"
    using assms(5) by (cases y_true) auto
  then have "fl_weight E ?ts = map spec_weight ?ts"
    by (rule fl_weight_binary [OF assms(1) _ bin])
  moreover have "mset (rev (sorter y_pred)) = mset [0..<length y_pred]"
    using assms(2) by (simp add: is_argsort_def)
  moreover have "sorted (rev (map (\<lambda>i. y_pred ! i) (rev (sorter y_pred))))"
    using assms(2) by (simp add: is_argsort_def rev_map)
  ultimately show ?thesis by simp
qed

theorem amex_metric_formula_witness:
  "fl_amex_metric exact argsort [0, 1, 0, 1, 0, 0] [1 / 10, 9 / 10, 1 / 2, 1 / 5, 1 / 5, 3 / 10]
     = Inr (spec_metric exact [1, 0, 0, 0, 1, 0])
   \<and> spec_metric exact [1, 0, 0, 0, 1, 0] = 11 / 42"
proof -
  have h: "length [0, 1, 0, 1, 0, 0 :: real]
             = length [1 / 10, 9 / 10, 1 / 2, 1 / 5, 1 / 5, 3 / 10 :: real]"
    "binary [0, 1, 0, 1, 0, 0]"
    "1 \<in> set [0, 1, 0, 1, 0, 0 :: real]"
    "0 \<in> set [0, 1, 0, 1, 0, 0 :: real]"
    by (simp_all add: binary_def)
  have t: "fl_target argsort [0, 1, 0, 1, 0, 0] [1 / 10, 9 / 10, 1 / 2, 1 / 5, 1 / 5, 3 / 10]
             = [1, 0, 0, 0, 1, 0]"
    by code_simp
  have v: "spec_metric exact [1, 0, 0, 0, 1, 0] = 11 / 42"
    by code_simp
  show ?thesis
    using amex_metric_formula [where E = exact and sorter = argsort
        and y_true = "[0, 1, 0, 1, 0, 0]"
        and y_pred = "[1 / 10, 9 / 10, 1 / 2, 1 / 5, 1 / 5, 3 / 10]",
        OF float_like_exact is_argsort_argsort h] t v
    by simp
qed

section \<open>Properties of the time-series compressor\<close>

subsection \<open>Reshaping\<close>

lemma pad_row_eq: "pad_row df_val = replicate (13 - length df_val) 0 @ df_val"
  by (simp add: pad_row_def)

lemma length_pad_row: "length df_val \<le> 13 \<Longrightarrow> length (pad_row df_val) = 13"
  by (simp add: pad_row_eq)

lemma pad_row_at_least: "13 \<le> length (pad_row df_val)"
proof (cases "length df_val = 13")
  case True
  then show ?thesis by (simp add: pad_row_def)
next
  case False
  then have "length (pad_row df_val) = (13 - length df_val) + length df_val"
    by (simp add: pad_row_def)
  then show ?thesis by arith
qed

lemma pad_row_long: "13 < length df_val \<Longrightarrow> pad_row df_val = df_val"
  by (simp add: pad_row_def)

lemma map_fst_groupby: "map fst (groupby data) = sort (remdups (map fst data))"
  by (simp add: groupby_def comp_def)

lemma res_list_eq:
  "map (\<lambda>(cid, df_val). (cid, pad_row df_val)) (groupby data)
     = map (\<lambda>cid. (cid, pad_row (observations data cid))) (sort (remdups (map fst data)))"
  by (simp add: groupby_def comp_def)

text \<open>
  C5. When no customer has more than 13 observations, \<^verbatim>\<open>transpose_data\<close> returns one
  row per customer, the customers in sorted order and each once; every row has exactly 13
  entries: the customer's values in their input order, with zeros in front of them when
  there are fewer than 13.
\<close>

theorem transpose_data_padded:
  assumes "\<forall>cid. length (observations data cid) \<le> 13"
  shows "\<exists>res. transpose_data data = Inr res
    \<and> map fst res = sort (remdups (map fst data))
    \<and> (\<forall>row\<in>set res. length (snd row) = 13
          \<and> snd row = replicate (13 - length (observations data (fst row))) 0
                         @ observations data (fst row))"
proof -
  let ?res = "map (\<lambda>cid. (cid, pad_row (observations data cid))) (sort (remdups (map fst data)))"
  have rows: "\<forall>row\<in>set ?res. length (snd row) = 13
          \<and> snd row = replicate (13 - length (observations data (fst row))) 0
                         @ observations data (fst row)"
    using assms by (auto simp: length_pad_row pad_row_eq)
  then have "list_all (\<lambda>row. length (snd row) = 13) ?res"
    unfolding list_all_iff by blast
  then have "transpose_data data = Inr ?res"
    by (simp add: transpose_data_def res_list_eq data_frame_def)
  moreover have "map fst ?res = sort (remdups (map fst data))"
    by (simp add: comp_def)
  ultimately show ?thesis
    using rows by blast
qed

theorem transpose_data_padded_witness:
  "transpose_data [(2 :: nat, 5), (1, 3), (2, 7)]
     = Inr [(1, [0, 0, 0, 0, 0, 0, 0, 0, 0, 0, 0, 0, 3]),
            (2, [0, 0, 0, 0, 0, 0, 0, 0, 0, 0, 0, 5, 7])]"
proof -
  have h: "\<forall>cid. length (observations [(2 :: nat, 5 :: real), (1, 3), (2, 7)] cid) \<le> 13"
    by (simp add: observations_def)
  have v: "transpose_data [(2 :: nat, 5), (1, 3), (2, 7)]
     = Inr [(1, [0, 0, 0, 0, 0, 0, 0, 0, 0, 0, 0, 0, 3]),
            (2, [0, 0, 0, 0, 0, 0, 0, 0, 0, 0, 0, 5, 7])]"
    by code_simp
  from transpose_data_padded [OF h] obtain res where
    "transpose_data [(2 :: nat, 5), (1, 3), (2, 7)] = Inr res"
    "\<forall>row\<in>set res. length (snd row) = 13" by blast
  with v show ?thesis by simp
qed

text \<open>
  C9. A customer with more than 13 observations gets neither padding nor truncation: the
  row is the customer's values as they are, longer than the 13 series columns, and building
  the result frame raises ValueError.
\<close>

theorem transpose_data_too_long:
  assumes "13 < length (observations data cid)"
  shows "pad_row (observations data cid) = observations data cid
    \<and> transpose_data data = Inl ValueError"
proof -
  let ?res = "map (\<lambda>cid. (cid, pad_row (observations data cid))) (sort (remdups (map fst data)))"
  have p: "pad_row (observations data cid) = observations data cid"
    by (rule pad_row_long [OF assms])
  have "observations data cid \<noteq> []"
    using assms by auto
  then have "cid \<in> set (map fst data)"
    by (auto simp: observations_def filter_empty_conv)
  then have "(cid, pad_row (observations data cid)) \<in> set ?res"
    by simp
  moreover have "length (snd (cid, pad_row (observations data cid))) \<noteq> 13"
    using assms p by simp
  ultimately have "\<not> list_all (\<lambda>row. length (snd row) = 13) ?res"
    unfolding list_all_iff by blast
  then have "transpose_data data = Inl ValueError"
    by (simp add: transpose_data_def res_list_eq data_frame_def)
  with p show ?thesis by simp
qed

theorem transpose_data_too_long_witness:
  "length (observations (map (\<lambda>i. (1 :: nat, real i)) [0..<14]) 1) = 14
   \<and> pad_row (observations (map (\<lambda>i. (1 :: nat, real i)) [0..<14]) 1)
       = [0, 1, 2, 3, 4, 5, 6, 7, 8, 9, 10, 11, 12, 13]
   \<and> transpose_data (map (\<lambda>i. (1 :: nat, real i)) [0..<14]) = Inl ValueError"
proof -
  have o: "observations (map (\<lambda>i. (1 :: nat, real i)) [0..<14]) 1
             = [0, 1, 2, 3, 4, 5, 6, 7, 8, 9, 10, 11, 12, 13]"
    by code_simp
  then have h: "13 < length (observations (map (\<lambda>i. (1 :: nat, real i)) [0..<14]) 1)"
    by simp
  show ?thesis
    using transpose_data_too_long [OF h] o by simp
qed

subsection \<open>Which scale the transform step uses\<close>

lemma length_pca_transform: "length (concat (pca_transform model X)) = length X"
  by (induction X) (simp_all add: pca_transform_def)

lemma length_ss_transform: "length (ss_transform sc X) = length X"
  by (simp add: ss_transform_def)

lemma fit_column_scaler:
  assumes "fit_column pca_fit train = Inr (model, evr)"
  shows "\<exists>t_data sc. transpose_data train = Inr t_data
    \<and> fit_time_scaler train = Inr sc
    \<and> pca_fit (ss_transform sc (map snd t_data)) = Inr model"
proof (cases "transpose_data train")
  case (Inl e)
  with assms show ?thesis
    by (simp add: fit_column_def bindE_Inl)
next
  case t: (Inr t_data)
  show ?thesis
  proof (cases "ss_fit (map snd t_data)")
    case (Inl e)
    with assms t show ?thesis
      by (simp add: fit_column_def create_model_def ss_fit_transform_def bindE_Inr bindE_Inl)
  next
    case sc: (Inr sc)
    show ?thesis
    proof (cases "pca_fit (ss_transform sc (map snd t_data))")
      case (Inl e)
      with assms t sc show ?thesis
        by (simp add: fit_column_def create_model_def ss_fit_transform_def bindE_Inr bindE_Inl)
    next
      case (Inr p)
      with assms t sc have "p = model"
        by (simp add: fit_column_def create_model_def ss_fit_transform_def bindE_Inr)
      with Inr t sc show ?thesis
        by (simp add: fit_time_scaler_def bindE_Inr)
    qed
  qed
qed

text \<open>
  C1, as the code has it. The transform step of lines 185 to 189 standardizes the reshaped
  column with a scaler fit on that same matrix, then projects with the fitted axis, one
  scalar per customer. The result is the projection of the input standardized with the
  fit-time scale when the column is the one the model was fit on, which is the only use the
  script makes of the step.
\<close>

theorem compress_column_refits_scaler:
  assumes "transpose_data series = Inr t_data"
    and "ss_fit (map snd t_data) = Inr sc"
  shows "compress_column model series = Inr (spec_transform sc model (map snd t_data))
    \<and> length (spec_transform sc model (map snd t_data)) = length t_data
    \<and> (series = train \<and> fit_time_scaler train = Inr sc_fit \<longrightarrow>
         compress_column model series = Inr (spec_transform sc_fit model (map snd t_data)))"
proof -
  have c: "compress_column model series = Inr (spec_transform sc model (map snd t_data))"
    by (simp add: compress_column_def ss_fit_transform_def spec_transform_def assms bindE_Inr)
  have l: "length (spec_transform sc model (map snd t_data)) = length t_data"
    by (simp add: spec_transform_def length_pca_transform length_ss_transform)
  have "fit_time_scaler series = Inr sc"
    by (simp add: fit_time_scaler_def assms bindE_Inr)
  then have "series = train \<and> fit_time_scaler train = Inr sc_fit \<longrightarrow> sc_fit = sc"
    by auto
  with c l show ?thesis by auto
qed

lemma upt_13: "[0..<13] = [0, 1, 2, 3, 4, 5, 6, 7, 8, 9, 10, 11, 12]"
  by code_simp

lemma transpose_fit_column: "transpose_data [(''A'', 0), (''B'', 2)]
        = Inr [(''A'', [0, 0, 0, 0, 0, 0, 0, 0, 0, 0, 0, 0, 0]), (''B'', [0, 0, 0, 0, 0, 0, 0, 0, 0, 0, 0, 0, 2])]"
  by code_simp

lemma transpose_later_column: "transpose_data [(''A'', 0), (''B'', 4)]
        = Inr [(''A'', [0, 0, 0, 0, 0, 0, 0, 0, 0, 0, 0, 0, 0]), (''B'', [0, 0, 0, 0, 0, 0, 0, 0, 0, 0, 0, 0, 4])]"
  by code_simp

lemma ss_fit_fit_column: "ss_fit [[0, 0, 0, 0, 0, 0, 0, 0, 0, 0, 0, 0, 0], [0, 0, 0, 0, 0, 0, 0, 0, 0, 0, 0, 0, 2]]
   = Inr \<lparr>ss_mean = [0, 0, 0, 0, 0, 0, 0, 0, 0, 0, 0, 0, 1], ss_scale = [1, 1, 1, 1, 1, 1, 1, 1, 1, 1, 1, 1, 1]\<rparr>"
  by (simp add: ss_fit_def Let_def column_def np_mean_def np_var_def upt_13)

lemma ss_fit_later_column: "ss_fit [[0, 0, 0, 0, 0, 0, 0, 0, 0, 0, 0, 0, 0], [0, 0, 0, 0, 0, 0, 0, 0, 0, 0, 0, 0, 4]]
   = Inr \<lparr>ss_mean = [0, 0, 0, 0, 0, 0, 0, 0, 0, 0, 0, 0, 2], ss_scale = [1, 1, 1, 1, 1, 1, 1, 1, 1, 1, 1, 1, 2]\<rparr>"
  by (simp add: ss_fit_def Let_def column_def np_mean_def np_var_def upt_13)

theorem compress_column_refits_scaler_witness:
  "compress_column
     \<lparr>pca_mean = [0, 0, 0, 0, 0, 0, 0, 0, 0, 0, 0, 0, 0],
      components = [0, 0, 0, 0, 0, 0, 0, 0, 0, 0, 0, 0, 1],
      explained_variance_ratio = [1]\<rparr>
     [(''A'', 0), (''B'', 4)]
   = Inr (spec_transform
       \<lparr>ss_mean = [0, 0, 0, 0, 0, 0, 0, 0, 0, 0, 0, 0, 2],
        ss_scale = [1, 1, 1, 1, 1, 1, 1, 1, 1, 1, 1, 1, 2]\<rparr>
       \<lparr>pca_mean = [0, 0, 0, 0, 0, 0, 0, 0, 0, 0, 0, 0, 0],
        components = [0, 0, 0, 0, 0, 0, 0, 0, 0, 0, 0, 0, 1],
        explained_variance_ratio = [1]\<rparr>
       [[0, 0, 0, 0, 0, 0, 0, 0, 0, 0, 0, 0, 0], [0, 0, 0, 0, 0, 0, 0, 0, 0, 0, 0, 0, 4]])
   \<and> spec_transform
       \<lparr>ss_mean = [0, 0, 0, 0, 0, 0, 0, 0, 0, 0, 0, 0, 2],
        ss_scale = [1, 1, 1, 1, 1, 1, 1, 1, 1, 1, 1, 1, 2]\<rparr>
       \<lparr>pca_mean = [0, 0, 0, 0, 0, 0, 0, 0, 0, 0, 0, 0, 0],
        components = [0, 0, 0, 0, 0, 0, 0, 0, 0, 0, 0, 0, 1],
        explained_variance_ratio = [1]\<rparr>
       [[0, 0, 0, 0, 0, 0, 0, 0, 0, 0, 0, 0, 0], [0, 0, 0, 0, 0, 0, 0, 0, 0, 0, 0, 0, 4]]
     = [- 1, 1]"
proof -
  have m: "map snd [(''A'', [0, 0, 0, 0, 0, 0, 0, 0, 0, 0, 0, 0, 0 :: real]),
                    (''B'', [0, 0, 0, 0, 0, 0, 0, 0, 0, 0, 0, 0, 4])]
             = [[0, 0, 0, 0, 0, 0, 0, 0, 0, 0, 0, 0, 0], [0, 0, 0, 0, 0, 0, 0, 0, 0, 0, 0, 0, 4]]"
    by simp
  have f: "ss_fit (map snd [(''A'', [0, 0, 0, 0, 0, 0, 0, 0, 0, 0, 0, 0, 0 :: real]),
                            (''B'', [0, 0, 0, 0, 0, 0, 0, 0, 0, 0, 0, 0, 4])])
             = Inr \<lparr>ss_mean = [0, 0, 0, 0, 0, 0, 0, 0, 0, 0, 0, 0, 2],
                    ss_scale = [1, 1, 1, 1, 1, 1, 1, 1, 1, 1, 1, 1, 2]\<rparr>"
    unfolding m by (rule ss_fit_later_column)
  have v: "spec_transform
       \<lparr>ss_mean = [0, 0, 0, 0, 0, 0, 0, 0, 0, 0, 0, 0, 2],
        ss_scale = [1, 1, 1, 1, 1, 1, 1, 1, 1, 1, 1, 1, 2]\<rparr>
       \<lparr>pca_mean = [0, 0, 0, 0, 0, 0, 0, 0, 0, 0, 0, 0, 0],
        components = [0, 0, 0, 0, 0, 0, 0, 0, 0, 0, 0, 0, 1],
        explained_variance_ratio = [1]\<rparr>
       [[0, 0, 0, 0, 0, 0, 0, 0, 0, 0, 0, 0, 0], [0, 0, 0, 0, 0, 0, 0, 0, 0, 0, 0, 0, 4]]
     = [- 1, 1]"
    by (simp add: spec_transform_def ss_transform_def pca_transform_def)
  have "compress_column
     \<lparr>pca_mean = [0, 0, 0, 0, 0, 0, 0, 0, 0, 0, 0, 0, 0],
      components = [0, 0, 0, 0, 0, 0, 0, 0, 0, 0, 0, 0, 1],
      explained_variance_ratio = [1]\<rparr>
     [(''A'', 0), (''B'', 4)]
   = Inr (spec_transform
       \<lparr>ss_mean = [0, 0, 0, 0, 0, 0, 0, 0, 0, 0, 0, 0, 2],
        ss_scale = [1, 1, 1, 1, 1, 1, 1, 1, 1, 1, 1, 1, 2]\<rparr>
       \<lparr>pca_mean = [0, 0, 0, 0, 0, 0, 0, 0, 0, 0, 0, 0, 0],
        components = [0, 0, 0, 0, 0, 0, 0, 0, 0, 0, 0, 0, 1],
        explained_variance_ratio = [1]\<rparr>
       (map snd [(''A'', [0, 0, 0, 0, 0, 0, 0, 0, 0, 0, 0, 0, 0 :: real]),
                 (''B'', [0, 0, 0, 0, 0, 0, 0, 0, 0, 0, 0, 0, 4])]))"
    using compress_column_refits_scaler [OF transpose_later_column f] by (rule conjunct1)
  then show ?thesis
    unfolding m using v by (simp only: simp_thms)
qed

text \<open>
  C1, as the specification states it, fails. A column is fit on customers \<open>A\<close> and \<open>B\<close>
  with one observation each, 0 and 2: the fit-time scale has mean 1 and deviation 1 in the
  last step, and the last unit vector is a first principal axis of the standardized matrix
  (its negative is the other one, and changes only the signs below). On a later column with
  the observations 0 and 4 the code returns -1 and 1; the input standardized with the
  fit-time scale projects to -1 and 3.
\<close>

theorem compress_column_fit_scale_counterexample:
  "fit_time_scaler [(''A'', 0), (''B'', 2)]
     = Inr \<lparr>ss_mean = [0, 0, 0, 0, 0, 0, 0, 0, 0, 0, 0, 0, 1],
            ss_scale = [1, 1, 1, 1, 1, 1, 1, 1, 1, 1, 1, 1, 1]\<rparr>
   \<and> first_axis [0, 0, 0, 0, 0, 0, 0, 0, 0, 0, 0, 0, 1]
       (ss_transform \<lparr>ss_mean = [0, 0, 0, 0, 0, 0, 0, 0, 0, 0, 0, 0, 1],
                      ss_scale = [1, 1, 1, 1, 1, 1, 1, 1, 1, 1, 1, 1, 1]\<rparr>
          [[0, 0, 0, 0, 0, 0, 0, 0, 0, 0, 0, 0, 0], [0, 0, 0, 0, 0, 0, 0, 0, 0, 0, 0, 0, 2]])
   \<and> transpose_data [(''A'', 0), (''B'', 4)]
       = Inr [(''A'', [0, 0, 0, 0, 0, 0, 0, 0, 0, 0, 0, 0, 0]), (''B'', [0, 0, 0, 0, 0, 0, 0, 0, 0, 0, 0, 0, 4])]
   \<and> compress_column
        \<lparr>pca_mean = [0, 0, 0, 0, 0, 0, 0, 0, 0, 0, 0, 0, 0],
         components = [0, 0, 0, 0, 0, 0, 0, 0, 0, 0, 0, 0, 1],
         explained_variance_ratio = [1]\<rparr>
        [(''A'', 0), (''B'', 4)] = Inr [- 1, 1]
   \<and> spec_transform
        \<lparr>ss_mean = [0, 0, 0, 0, 0, 0, 0, 0, 0, 0, 0, 0, 1],
         ss_scale = [1, 1, 1, 1, 1, 1, 1, 1, 1, 1, 1, 1, 1]\<rparr>
        \<lparr>pca_mean = [0, 0, 0, 0, 0, 0, 0, 0, 0, 0, 0, 0, 0],
         components = [0, 0, 0, 0, 0, 0, 0, 0, 0, 0, 0, 0, 1],
         explained_variance_ratio = [1]\<rparr>
        [[0, 0, 0, 0, 0, 0, 0, 0, 0, 0, 0, 0, 0], [0, 0, 0, 0, 0, 0, 0, 0, 0, 0, 0, 0, 4]]
       = [- 1, 3]
   \<and> Inr [- 1, 1] \<noteq> (Inr [- 1, 3] :: error + real list)"
proof -
  have a: "fit_time_scaler [(''A'', 0), (''B'', 2)]
     = Inr \<lparr>ss_mean = [0, 0, 0, 0, 0, 0, 0, 0, 0, 0, 0, 0, 1],
            ss_scale = [1, 1, 1, 1, 1, 1, 1, 1, 1, 1, 1, 1, 1]\<rparr>"
    by (simp add: fit_time_scaler_def transpose_fit_column bindE_Inr ss_fit_fit_column)
  have b: "first_axis [0, 0, 0, 0, 0, 0, 0, 0, 0, 0, 0, 0, 1]
       (ss_transform \<lparr>ss_mean = [0, 0, 0, 0, 0, 0, 0, 0, 0, 0, 0, 0, 1],
                      ss_scale = [1, 1, 1, 1, 1, 1, 1, 1, 1, 1, 1, 1, 1]\<rparr>
          [[0, 0, 0, 0, 0, 0, 0, 0, 0, 0, 0, 0, 0], [0, 0, 0, 0, 0, 0, 0, 0, 0, 0, 0, 0, 2]])"
    by (simp add: first_axis_def ss_transform_def)
  have c: "compress_column
        \<lparr>pca_mean = [0, 0, 0, 0, 0, 0, 0, 0, 0, 0, 0, 0, 0],
         components = [0, 0, 0, 0, 0, 0, 0, 0, 0, 0, 0, 0, 1],
         explained_variance_ratio = [1]\<rparr>
        [(''A'', 0), (''B'', 4)] = Inr [- 1, 1]"
    by (simp add: compress_column_def transpose_later_column bindE_Inr ss_fit_transform_def
        ss_fit_later_column ss_transform_def
        pca_transform_def)
  have d: "spec_transform
        \<lparr>ss_mean = [0, 0, 0, 0, 0, 0, 0, 0, 0, 0, 0, 0, 1],
         ss_scale = [1, 1, 1, 1, 1, 1, 1, 1, 1, 1, 1, 1, 1]\<rparr>
        \<lparr>pca_mean = [0, 0, 0, 0, 0, 0, 0, 0, 0, 0, 0, 0, 0],
         components = [0, 0, 0, 0, 0, 0, 0, 0, 0, 0, 0, 0, 1],
         explained_variance_ratio = [1]\<rparr>
        [[0, 0, 0, 0, 0, 0, 0, 0, 0, 0, 0, 0, 0], [0, 0, 0, 0, 0, 0, 0, 0, 0, 0, 0, 0, 4]]
       = [- 1, 3]"
    by (simp add: spec_transform_def ss_transform_def pca_transform_def)
  have e: "Inr [- 1, 1] \<noteq> (Inr [- 1, 3] :: error + real list)"
    by simp
  from a b transpose_later_column c d e show ?thesis
    by (simp only: simp_thms)
qed

section \<open>Properties of preprocessing\<close>

lemma sort_values_error: "sort_values by df = Inl e \<Longrightarrow> e = KeyError"
  by (simp add: sort_values_def Let_def split: if_splits)

lemma sort_values_columns: "sort_values by df = Inr df' \<Longrightarrow> columns df' = columns df"
  by (auto simp: sort_values_def Let_def split: if_splits)

lemma sort_values_present:
  "sort_values by df = Inr df' \<Longrightarrow> c \<in> set by \<Longrightarrow> c \<in> set (columns df)"
  by (auto simp: sort_values_def list_all_iff split: if_splits)

lemma columns_fillna: "columns (fillna v df) = columns df"
  by (simp add: fillna_def)

lemma drop_columns_missing:
  "\<not> set labels \<subseteq> set (columns df) \<Longrightarrow> drop_columns labels df = Inl KeyError"
  by (auto simp: drop_columns_def list_all_iff)

lemma denylist_guard:
  assumes "''S_2'' \<in> set cols"
  shows "card (set remove_param \<inter> set cols) \<noteq> 0"
proof -
  have "''S_2'' \<in> set remove_param \<inter> set cols"
    using assms by (simp add: remove_param_def)
  then have "set remove_param \<inter> set cols \<noteq> {}" by blast
  then show ?thesis by simp
qed

text \<open>
  C7. The claim is that every denylist column present is dropped, also when only some of
  them are present. The code tests whether any denylist column is present and then asks
  pandas to drop all of them, which raises KeyError as soon as one is absent: whenever a
  denylist column is missing from the table, \<^verbatim>\<open>preprocess\<close> raises instead of dropping
  the ones that are there.
\<close>

theorem preprocess_partial_denylist:
  assumes "\<not> set remove_param \<subseteq> set (columns data)"
  shows "snd (preprocess get_dummies data) = Inl KeyError"
proof (cases "sort_values [''customer_ID'', ''S_2''] data")
  case (Inl e)
  then show ?thesis
    by (simp add: preprocess_def sort_values_error [OF Inl])
next
  case (Inr data1)
  have cols: "columns (fillna 0 data1) = columns data"
    by (simp add: columns_fillna sort_values_columns [OF Inr])
  have "''S_2'' \<in> set (columns data)"
    by (rule sort_values_present [OF Inr]) simp
  then have guard: "card (set remove_param \<inter> set (columns (fillna 0 data1))) \<noteq> 0"
    unfolding cols by (rule denylist_guard)
  have "drop_columns remove_param (fillna 0 data1) = Inl KeyError"
    using assms by (intro drop_columns_missing) (simp add: cols)
  with guard Inr show ?thesis
    by (simp add: preprocess_def Let_def bindE_Inl)
qed

text \<open>
  The failing input: of the denylist only \<^verbatim>\<open>S_2\<close> is present. The encoding is
  never reached; its stand-in raises, as \<^verbatim>\<open>pd.get_dummies\<close> does on a frame without
  the category columns.
\<close>

theorem preprocess_partial_denylist_witness:
  "snd (preprocess (\<lambda>df cs. Inl KeyError)
     \<lparr>index = [Num 0], columns = [''customer_ID'', ''S_2'', ''P_2''],
      rows = [[Str ''a'', Str ''2017-03-01'', Num 1]]\<rparr>) = Inl KeyError"
proof -
  have "\<not> set remove_param \<subseteq> set (columns \<lparr>index = [Num 0], columns = [''customer_ID'', ''S_2'', ''P_2''],
      rows = [[Str ''a'', Str ''2017-03-01'', Num 1]]\<rparr>)"
    by (simp add: remove_param_def)
  then show ?thesis
    by (rule preprocess_partial_denylist)
qed

lemma sort_values_ok:
  assumes "list_all (\<lambda>c. c \<in> set (columns df)) by"
  shows "sort_values by df
           = Inr (df\<lparr>index := map fst (sort_key (row_key df by) (zip (index df) (rows df))),
                      rows := map snd (sort_key (row_key df by) (zip (index df) (rows df)))\<rparr>)"
  using assms by (simp add: sort_values_def Let_def)

lemma fillna_no_NaN: "r \<in> set (rows (fillna v df)) \<Longrightarrow> NaN \<notin> set r"
  by (auto simp: fillna_def)

text \<open>
  C10. A call that gets past line 112 (both sort columns exist) leaves the caller's frame
  changed: it holds the rows of the input, reordered so that their (customer_ID, S_2) keys
  ascend, and then every missing cell replaced with zero. The frame the call returns is a
  separate value, the second component of the model's result. A frame with a missing cell
  is therefore never left as it was.
\<close>

theorem preprocess_mutates_argument:
  assumes "''customer_ID'' \<in> set (columns data)"
    and "''S_2'' \<in> set (columns data)"
  shows "\<exists>data1. sort_values [''customer_ID'', ''S_2''] data = Inr data1
    \<and> fst (preprocess get_dummies data) = fillna 0 data1
    \<and> sorted (map (row_key data [''customer_ID'', ''S_2'']) (zip (index data1) (rows data1)))
    \<and> mset (zip (index data1) (rows data1)) = mset (zip (index data) (rows data))
    \<and> (\<forall>r\<in>set (rows (fst (preprocess get_dummies data))). NaN \<notin> set r)
    \<and> ((\<exists>r\<in>set (rows data). NaN \<in> set r) \<longrightarrow> fst (preprocess get_dummies data) \<noteq> data)"
proof -
  let ?by = "[''customer_ID'', ''S_2'']"
  let ?l = "sort_key (row_key data ?by) (zip (index data) (rows data))"
  let ?d1 = "data\<lparr>index := map fst ?l, rows := map snd ?l\<rparr>"
  have sv: "sort_values ?by data = Inr ?d1"
    using assms(1,2) by (intro sort_values_ok) simp
  have z: "zip (index ?d1) (rows ?d1) = ?l"
    by (simp add: zip_map_fst_snd)
  have pre: "fst (preprocess get_dummies data) = fillna 0 ?d1"
    by (simp add: preprocess_def sv Let_def)
  have srt: "sorted (map (row_key data ?by) (zip (index ?d1) (rows ?d1)))"
    unfolding z by (rule sorted_sort_key)
  have ms: "mset (zip (index ?d1) (rows ?d1)) = mset (zip (index data) (rows data))"
    unfolding z by simp
  have nonan: "\<forall>r\<in>set (rows (fst (preprocess get_dummies data))). NaN \<notin> set r"
    unfolding pre using fillna_no_NaN by blast
  have "(\<exists>r\<in>set (rows data). NaN \<in> set r) \<longrightarrow> fst (preprocess get_dummies data) \<noteq> data"
    using nonan by auto
  with sv pre srt ms nonan show ?thesis
    by blast
qed

text \<open>
  An instance: three rows out of order, one missing cell. The frame has none of the
  category columns, where \<^verbatim>\<open>pd.get_dummies\<close> raises KeyError.
\<close>

theorem preprocess_mutates_argument_witness:
  "fst (preprocess (\<lambda>df cs. Inl KeyError)
     \<lparr>index = [Num 0, Num 1, Num 2],
      columns = [''customer_ID'', ''S_2'', ''P_2''],
      rows = [[Str ''b'', Str ''2017-03-01'', NaN],
              [Str ''a'', Str ''2017-04-01'', Num 1],
              [Str ''a'', Str ''2017-03-01'', Num 2]]\<rparr>)
   = \<lparr>index = [Num 2, Num 1, Num 0],
      columns = [''customer_ID'', ''S_2'', ''P_2''],
      rows = [[Str ''a'', Str ''2017-03-01'', Num 2],
              [Str ''a'', Str ''2017-04-01'', Num 1],
              [Str ''b'', Str ''2017-03-01'', Num 0]]\<rparr>
   \<and> fst (preprocess (\<lambda>df cs. Inl KeyError)
     \<lparr>index = [Num 0, Num 1, Num 2],
      columns = [''customer_ID'', ''S_2'', ''P_2''],
      rows = [[Str ''b'', Str ''2017-03-01'', NaN],
              [Str ''a'', Str ''2017-04-01'', Num 1],
              [Str ''a'', Str ''2017-03-01'', Num 2]]\<rparr>)
   \<noteq> \<lparr>index = [Num 0, Num 1, Num 2],
      columns = [''customer_ID'', ''S_2'', ''P_2''],
      rows = [[Str ''b'', Str ''2017-03-01'', NaN],
              [Str ''a'', Str ''2017-04-01'', Num 1],
              [Str ''a'', Str ''2017-03-01'', Num 2]]\<rparr>"
proof -
  let ?data = "\<lparr>index = [Num 0, Num 1, Num 2],
      columns = [''customer_ID'', ''S_2'', ''P_2''],
      rows = [[Str ''b'', Str ''2017-03-01'', NaN],
              [Str ''a'', Str ''2017-04-01'', Num 1],
              [Str ''a'', Str ''2017-03-01'', Num 2]]\<rparr>"
  have h: "''customer_ID'' \<in> set (columns ?data)" "''S_2'' \<in> set (columns ?data)"
    by simp_all
  have n: "\<exists>r\<in>set (rows ?data). NaN \<in> set r"
    by simp
  have sv: "sort_values [''customer_ID'', ''S_2''] ?data
    = Inr \<lparr>index = [Num 2, Num 1, Num 0],
      columns = [''customer_ID'', ''S_2'', ''P_2''],
      rows = [[Str ''a'', Str ''2017-03-01'', Num 2],
              [Str ''a'', Str ''2017-04-01'', Num 1],
              [Str ''b'', Str ''2017-03-01'', NaN]]\<rparr>"
    by code_simp
  from preprocess_mutates_argument [OF h, of "\<lambda>df cs. Inl KeyError"] obtain data1 where
    d: "sort_values [''customer_ID'', ''S_2''] ?data = Inr data1"
      "fst (preprocess (\<lambda>df cs. Inl KeyError) ?data) = fillna 0 data1"
      "(\<exists>r\<in>set (rows ?data). NaN \<in> set r) \<longrightarrow> fst (preprocess (\<lambda>df cs. Inl KeyError) ?data) \<noteq> ?data"
    by blast
  from d(1) sv have "data1 = \<lparr>index = [Num 2, Num 1, Num 0],
      columns = [''customer_ID'', ''S_2'', ''P_2''],
      rows = [[Str ''a'', Str ''2017-03-01'', Num 2],
              [Str ''a'', Str ''2017-04-01'', Num 1],
              [Str ''b'', Str ''2017-03-01'', NaN]]\<rparr>"
    by simp
  then have "fst (preprocess (\<lambda>df cs. Inl KeyError) ?data) = \<lparr>index = [Num 2, Num 1, Num 0],
      columns = [''customer_ID'', ''S_2'', ''P_2''],
      rows = [[Str ''a'', Str ''2017-03-01'', Num 2],
              [Str ''a'', Str ''2017-04-01'', Num 1],
              [Str ''b'', Str ''2017-03-01'', Num 0]]\<rparr>"
    using d(2) by (simp add: fillna_def)
  moreover have "fst (preprocess (\<lambda>df cs. Inl KeyError) ?data) \<noteq> ?data"
    using d(3) n by blast
  ultimately show ?thesis
    by (simp only: simp_thms)
qed

end
